theory Spec2Isabelle
  imports Complex_Main "HOL-Library.AList" "HOL-Library.Log_Nat"
begin

section \<open>Free Block Engine: the block graph store\<close>

text \<open>
  A shallow embedding of \<^verbatim>\<open>blockEngine.js\<close> (classes \<^verbatim>\<open>Block\<close> and
  \<^verbatim>\<open>BlockEngine\<close>) and of \<^verbatim>\<open>BlockRenderer.getConnectionPoint\<close>.

  Conventions of the embedding.
  \<^item> A JavaScript \<^verbatim>\<open>Map\<close> iterates in insertion order, \<^verbatim>\<open>set\<close> on a present key
    keeps the key's place and \<^verbatim>\<open>set\<close> on an absent key appends. That is an association
    list with \<open>map_of\<close> (\<^verbatim>\<open>get\<close>/\<^verbatim>\<open>has\<close>), \<open>AList.update\<close> (\<^verbatim>\<open>set\<close>) and
    \<open>AList.delete\<close> (\<^verbatim>\<open>delete\<close>).
  \<^item> A number of the engine is a double: a finite value, an infinity or \<^verbatim>\<open>NaN\<close>, and
    its arithmetic rounds to the nearest double (type \<open>number\<close> below, which also has
    the \<^verbatim>\<open>null\<close> that an import can leave in a numeric field). The negative zero is
    not told from zero: the operations embedded here give results that differ at most in
    the sign of a zero on the two. The rectangles of the connector geometry are the one
    exception: they are over exact rationals.
  \<^item> \<^verbatim>\<open>new Date().toISOString()\<close> is a parameter \<open>now\<close> of each operation, and the id
    drawn by \<^verbatim>\<open>generateId\<close> is a parameter of \<open>createBlock\<close>.
  \<^item> A block object is owned by the store and reached through its key, so a method call
    on a block found by \<^verbatim>\<open>getBlock(k)\<close> is an update of the entry at key \<open>k\<close>; two
    lookups of one key are one object.
  \<^item> \<^verbatim>\<open>emit\<close> appends to a log of published events; listeners are external to the
    store. An event's payload names blocks by id.
\<close>

subsection \<open>Numbers\<close>

text \<open>
  The value of a numeric field (a coordinate, a side of a size, a setting): a finite
  double, given by its exact value, an infinity, \<^verbatim>\<open>NaN\<close>, or \<^verbatim>\<open>null\<close>, which
  \<^verbatim>\<open>importFromJSON\<close> stores in such a field when the document has it there.

  \<open>fl\<close> rounds an exact result to the nearest double, a tie to the one with the even
  significand. \<open>exponent q\<close> is the integer \<open>e\<close> with \<open>2 ^ e \<le> |q| < 2 ^ (e + 1)\<close>,
  the doubles around \<open>q\<close> are the multiples of \<open>ulp q\<close>, which is \<open>2 ^ (e - 52)\<close> in the
  normal range and \<open>2 ^ (- 1074)\<close> below it, and a rounded result of magnitude
  \<open>2 ^ 1024\<close> or more, that is of exponent 1024 or more, is an infinity.
\<close>

datatype number = Fin rat | PosInf | NegInf | NaN | Null

definition exponent :: "rat \<Rightarrow> int" where
  "exponent q =
     (if 1 \<le> \<bar>q\<bar> then bitlen \<lfloor>\<bar>q\<bar>\<rfloor> - 1 else - bitlen (\<lceil>1 / \<bar>q\<bar>\<rceil> - 1))"

definition ulp :: "rat \<Rightarrow> rat" where
  "ulp q = power_int 2 (max (exponent q) (- 1022) - 52)"

definition round_even :: "rat \<Rightarrow> int" where
  "round_even r =
     (let f = \<lfloor>r\<rfloor>; d = r - of_int f
      in if d < 1 / 2 then f else if 1 / 2 < d then f + 1 else if even f then f else f + 1)"

definition fl :: "rat \<Rightarrow> number" where
  "fl q =
     (let v = of_int (round_even (q / ulp q)) * ulp q
      in if 1024 \<le> exponent v then (if 0 < q then PosInf else NegInf) else Fin v)"

text \<open>
  The operators the engine applies to these values: \<^verbatim>\<open>+\<close>, \<^verbatim>\<open>*\<close>, \<^verbatim>\<open>/\<close>, \<^verbatim>\<open>>\<close>,
  \<^verbatim>\<open>Math.round\<close> and \<^verbatim>\<open>Math.max\<close>. Each converts its operands to numbers first, and
  \<^verbatim>\<open>null\<close> converts to 0 (\<open>to_number\<close>). \<open>signum\<close> is the sign of a number, 0 for zero
  and for \<^verbatim>\<open>NaN\<close>.
\<close>

fun to_number :: "number \<Rightarrow> number" where
  "to_number Null = Fin 0"
| "to_number (Fin a) = Fin a"
| "to_number PosInf = PosInf"
| "to_number NegInf = NegInf"
| "to_number NaN = NaN"

fun signum :: "number \<Rightarrow> int" where
  "signum (Fin a) = (if 0 < a then 1 else if a < 0 then - 1 else 0)"
| "signum PosInf = 1"
| "signum NegInf = - 1"
| "signum NaN = 0"
| "signum Null = 0"

definition js_add :: "number \<Rightarrow> number \<Rightarrow> number" where
  "js_add x y =
     (case (to_number x, to_number y) of
        (Fin a, Fin b) \<Rightarrow> fl (a + b)
      | (Fin a, y') \<Rightarrow> y'
      | (x', Fin b) \<Rightarrow> x'
      | (x', y') \<Rightarrow> if x' = y' then x' else NaN)"

definition js_mul :: "number \<Rightarrow> number \<Rightarrow> number" where
  "js_mul x y =
     (case (to_number x, to_number y) of
        (Fin a, Fin b) \<Rightarrow> fl (a * b)
      | (x', y') \<Rightarrow>
          if signum x' * signum y' = 0 then NaN
          else if 0 < signum x' * signum y' then PosInf
          else NegInf)"

definition js_div :: "number \<Rightarrow> number \<Rightarrow> number" where
  "js_div x y =
     (case (to_number x, to_number y) of
        (Fin a, Fin b) \<Rightarrow>
          if b = 0 then (if a = 0 then NaN else if 0 < a then PosInf else NegInf)
          else fl (a / b)
      | (Fin a, y') \<Rightarrow> if y' = NaN then NaN else Fin 0
      | (x', Fin b) \<Rightarrow>
          if x' = NaN then NaN
          else if (0 \<le> b) = (x' = PosInf) then PosInf
          else NegInf
      | _ \<Rightarrow> NaN)"

definition js_gt :: "number \<Rightarrow> number \<Rightarrow> bool" where
  "js_gt x y =
     (case (to_number x, to_number y) of
        (Fin a, Fin b) \<Rightarrow> b < a
      | (PosInf, Fin b) \<Rightarrow> True
      | (PosInf, NegInf) \<Rightarrow> True
      | (Fin a, NegInf) \<Rightarrow> True
      | _ \<Rightarrow> False)"

text \<open>
  \<^verbatim>\<open>Math.round\<close> returns the integer closest to its argument and, of two equally close
  integers, the one closer to plus infinity; an infinity and \<^verbatim>\<open>NaN\<close> are returned as
  they are. The integer is a double whenever the argument is one. \<^verbatim>\<open>Math.max\<close> returns
  \<^verbatim>\<open>NaN\<close> when an argument is \<^verbatim>\<open>NaN\<close>.
\<close>

definition Math_round :: "number \<Rightarrow> number" where
  "Math_round x = (case to_number x of Fin q \<Rightarrow> Fin (of_int \<lfloor>q + 1 / 2\<rfloor>) | x' \<Rightarrow> x')"

definition Math_max :: "number \<Rightarrow> number \<Rightarrow> number" where
  "Math_max x y =
     (let x' = to_number x; y' = to_number y
      in if x' = NaN \<or> y' = NaN then NaN else if js_gt y' x' then y' else x')"

subsection \<open>Block\<close>

record link_meta =
  link_type :: string
  link_createdAt :: "string option"

record 'a position =
  pos_x :: 'a
  pos_y :: 'a

record block_size =
  width :: number
  height :: number

record metadata =
  createdAt :: string
  updatedAt :: string

record block =
  block_id :: string
  content :: string
  block_type :: string
  links :: "(string \<times> link_meta) list"
  block_position :: "number position"
  size_of_block :: block_size
  block_metadata :: metadata

definition new_Block :: "string \<Rightarrow> string \<Rightarrow> string \<Rightarrow> string \<Rightarrow> block" where
  "new_Block now i c t =
     \<lparr> block_id = i, content = c, block_type = t, links = [],
       block_position = \<lparr> pos_x = Fin 0, pos_y = Fin 0 \<rparr>,
       size_of_block = \<lparr> width = Fin 250, height = Fin 250 \<rparr>,
       block_metadata = \<lparr> createdAt = now, updatedAt = now \<rparr> \<rparr>"

definition touch :: "string \<Rightarrow> block \<Rightarrow> block" where
  "touch now b = b \<lparr> block_metadata := (block_metadata b) \<lparr> updatedAt := now \<rparr> \<rparr>"

definition setContent :: "string \<Rightarrow> string \<Rightarrow> block \<Rightarrow> block" where
  "setContent now c b = touch now (b \<lparr> content := c \<rparr>)"

definition setPosition :: "string \<Rightarrow> number \<Rightarrow> number \<Rightarrow> block \<Rightarrow> block" where
  "setPosition now x y b = touch now (b \<lparr> block_position := \<lparr> pos_x = x, pos_y = y \<rparr> \<rparr>)"

definition setSize :: "string \<Rightarrow> number \<Rightarrow> number \<Rightarrow> block \<Rightarrow> block" where
  "setSize now w h b = touch now (b \<lparr> size_of_block := \<lparr> width = w, height = h \<rparr> \<rparr>)"

definition addLink :: "string \<Rightarrow> string \<Rightarrow> string \<Rightarrow> block \<Rightarrow> block" where
  "addLink now blockId linkType b =
     touch now (b \<lparr> links :=
       AList.update blockId \<lparr> link_type = linkType, link_createdAt = Some now \<rparr> (links b) \<rparr>)"

definition removeLink :: "string \<Rightarrow> string \<Rightarrow> block \<Rightarrow> block" where
  "removeLink now blockId b = touch now (b \<lparr> links := AList.delete blockId (links b) \<rparr>)"

definition hasLink :: "block \<Rightarrow> string \<Rightarrow> bool" where
  "hasLink b blockId = (map_of (links b) blockId \<noteq> None)"

definition getLinkType :: "block \<Rightarrow> string \<Rightarrow> string option" where
  "getLinkType b blockId = map_option link_type (map_of (links b) blockId)"

subsection \<open>BlockEngine\<close>

record settings =
  gridSize :: number
  defaultSpacing :: number
  minBlockWidth :: number
  minBlockHeight :: number

datatype event =
    BlockCreated string
  | BlockUpdated string
  | BlockMoved string
  | BlockResized string
  | BlockDeleted string
  | BlocksLinked string string string
  | BlocksUnlinked string string
  | BlocksImported nat
  | BlocksArranged nat

record engine =
  blocks :: "(string \<times> block) list"
  engine_settings :: settings
  events :: "event list"

definition new_BlockEngine :: engine where
  "new_BlockEngine =
     \<lparr> blocks = [],
       engine_settings =
         \<lparr> gridSize = Fin 20, defaultSpacing = Fin 300, minBlockWidth = Fin 150,
           minBlockHeight = Fin 100 \<rparr>,
       events = [] \<rparr>"

definition emit :: "event \<Rightarrow> engine \<Rightarrow> engine" where
  "emit e s = s \<lparr> events := events s @ [e] \<rparr>"

definition getBlock :: "engine \<Rightarrow> string \<Rightarrow> block option" where
  "getBlock s k = map_of (blocks s) k"

definition getAllBlocks :: "engine \<Rightarrow> block list" where
  "getAllBlocks s = map snd (blocks s)"

text \<open>A method call on the block object stored at key \<open>k\<close>.\<close>

definition on_block :: "string \<Rightarrow> (block \<Rightarrow> block) \<Rightarrow> engine \<Rightarrow> engine" where
  "on_block k f s = s \<lparr> blocks := AList.map_entry k f (blocks s) \<rparr>"

text \<open>
  \<^verbatim>\<open>getAutoPosition\<close>: the scan starts from \<^verbatim>\<open>maxX = 0, maxY = 50\<close> and a block
  replaces the pair only when its \<open>x\<close> is strictly greater.
\<close>

fun scan_rightmost :: "block list \<Rightarrow> number \<times> number \<Rightarrow> number \<times> number" where
  "scan_rightmost [] acc = acc"
| "scan_rightmost (b # bs) (maxX, maxY) =
     (if js_gt (pos_x (block_position b)) maxX
      then scan_rightmost bs (pos_x (block_position b), pos_y (block_position b))
      else scan_rightmost bs (maxX, maxY))"

definition getAutoPosition :: "engine \<Rightarrow> number position" where
  "getAutoPosition s =
     (if getAllBlocks s = [] then \<lparr> pos_x = Fin 50, pos_y = Fin 50 \<rparr>
      else (case scan_rightmost (getAllBlocks s) (Fin 0, Fin 50) of
              (maxX, maxY) \<Rightarrow>
                \<lparr> pos_x = js_add maxX (defaultSpacing (engine_settings s)), pos_y = maxY \<rparr>))"

definition createBlock ::
  "engine \<Rightarrow> string \<Rightarrow> string \<Rightarrow> string \<Rightarrow> string \<Rightarrow> number position option
     \<Rightarrow> block_size option \<Rightarrow> block \<times> engine" where
  "createBlock s now newId c t pos sz =
     (let b0 = new_Block now newId c t;
          b1 = (case pos of
                  Some p \<Rightarrow> setPosition now (pos_x p) (pos_y p) b0
                | None \<Rightarrow>
                    (let autoPos = getAutoPosition s
                     in setPosition now (pos_x autoPos) (pos_y autoPos) b0));
          b2 = (case sz of
                  Some z \<Rightarrow> setSize now (width z) (height z) b1
                | None \<Rightarrow> b1)
      in (b2, emit (BlockCreated newId) (s \<lparr> blocks := AList.update newId b2 (blocks s) \<rparr>)))"

text \<open>\<^verbatim>\<open>Math.round(x / this.settings.gridSize) * this.settings.gridSize\<close>\<close>

definition snap :: "number \<Rightarrow> number \<Rightarrow> number" where
  "snap g x = js_mul (Math_round (js_div x g)) g"

definition setBlockPosition ::
  "engine \<Rightarrow> string \<Rightarrow> string \<Rightarrow> number \<Rightarrow> number \<Rightarrow> bool \<Rightarrow> bool \<times> engine" where
  "setBlockPosition s now k x y snapToGrid =
     (case getBlock s k of
        None \<Rightarrow> (False, s)
      | Some _ \<Rightarrow>
          (let g = gridSize (engine_settings s);
               x' = (if snapToGrid then snap g x else x);
               y' = (if snapToGrid then snap g y else y)
           in (True, emit (BlockMoved k) (on_block k (setPosition now x' y') s))))"

definition setBlockSize ::
  "engine \<Rightarrow> string \<Rightarrow> string \<Rightarrow> number \<Rightarrow> number \<Rightarrow> bool \<times> engine" where
  "setBlockSize s now k w h =
     (case getBlock s k of
        None \<Rightarrow> (False, s)
      | Some _ \<Rightarrow>
          (let w' = Math_max w (minBlockWidth (engine_settings s));
               h' = Math_max h (minBlockHeight (engine_settings s))
           in (True, emit (BlockResized k) (on_block k (setSize now w' h') s))))"

definition setBlockContent :: "engine \<Rightarrow> string \<Rightarrow> string \<Rightarrow> string \<Rightarrow> bool \<times> engine" where
  "setBlockContent s now k c =
     (case getBlock s k of
        None \<Rightarrow> (False, s)
      | Some _ \<Rightarrow> (True, emit (BlockUpdated k) (on_block k (setContent now c) s)))"

definition install_links :: "string \<Rightarrow> string \<Rightarrow> string \<Rightarrow> string \<Rightarrow> engine \<Rightarrow> engine" where
  "install_links now fromId toId linkType s =
     (if linkType = ''single'' then on_block fromId (addLink now toId ''single'') s
      else if linkType = ''reverse'' then on_block toId (addLink now fromId ''single'') s
      else if linkType = ''double''
        then on_block toId (addLink now fromId ''double'')
               (on_block fromId (addLink now toId ''double'') s)
      else s)"

definition linkBlocks :: "engine \<Rightarrow> string \<Rightarrow> string \<Rightarrow> string \<Rightarrow> string \<Rightarrow> bool \<times> engine" where
  "linkBlocks s now fromId toId linkType =
     (if getBlock s fromId = None \<or> getBlock s toId = None then (False, s)
      else
        (let s1 = on_block fromId (removeLink now toId) s;
             s2 = on_block toId (removeLink now fromId) s1;
             s3 = install_links now fromId toId linkType s2
         in (True, emit (BlocksLinked fromId toId linkType) s3)))"

definition updateLinkType ::
  "engine \<Rightarrow> string \<Rightarrow> string \<Rightarrow> string \<Rightarrow> string \<Rightarrow> bool \<times> engine" where
  "updateLinkType s now fromId toId newLinkType = linkBlocks s now fromId toId newLinkType"

record link_info =
  info_type :: string
  info_from :: string
  info_to :: string

definition getLinkInfo :: "engine \<Rightarrow> string \<Rightarrow> string \<Rightarrow> link_info option" where
  "getLinkInfo s fromId toId =
     (case (getBlock s fromId, getBlock s toId) of
        (Some fromBlock, Some toBlock) \<Rightarrow>
          (let hasForward = hasLink fromBlock toId;
               hasReverse = hasLink toBlock fromId
           in if hasForward \<and> hasReverse
                then Some \<lparr> info_type = ''double'', info_from = fromId, info_to = toId \<rparr>
              else if hasForward
                then Some \<lparr> info_type = ''single'', info_from = fromId, info_to = toId \<rparr>
              else if hasReverse
                then Some \<lparr> info_type = ''reverse'', info_from = toId, info_to = fromId \<rparr>
              else None)
      | _ \<Rightarrow> None)"

definition unlinkBlocks :: "engine \<Rightarrow> string \<Rightarrow> string \<Rightarrow> string \<Rightarrow> bool \<times> engine" where
  "unlinkBlocks s now fromId toId =
     (if getBlock s fromId = None \<and> getBlock s toId = None then (False, s)
      else
        (let s1 = on_block fromId (removeLink now toId) s;
             s2 = on_block toId (removeLink now fromId) s1
         in (True, emit (BlocksUnlinked fromId toId) s2)))"

definition purge_link :: "string \<Rightarrow> string \<Rightarrow> block \<Rightarrow> block" where
  "purge_link now k b = (if hasLink b k then removeLink now k b else b)"

definition deleteBlock :: "engine \<Rightarrow> string \<Rightarrow> string \<Rightarrow> bool \<times> engine" where
  "deleteBlock s now k =
     (case getBlock s k of
        None \<Rightarrow> (False, s)
      | Some _ \<Rightarrow>
          (True,
           emit (BlockDeleted k)
             (s \<lparr> blocks := AList.delete k (map (\<lambda>(i, b). (i, purge_link now k b)) (blocks s)) \<rparr>)))"

subsection \<open>Serializer\<close>

text \<open>
  \<^verbatim>\<open>exportToJSON\<close> returns \<^verbatim>\<open>JSON.stringify(data, null, 2)\<close> and \<^verbatim>\<open>importFromJSON\<close>
  starts with \<^verbatim>\<open>JSON.parse(jsonData)\<close>. The text of a document is not modelled: the
  export yields the JSON value that \<^verbatim>\<open>JSON.parse\<close> gives for its text, and the import
  takes the outcome of \<^verbatim>\<open>JSON.parse\<close>, a syntax error or a JSON value. An object is
  the list of its properties and \<open>map_of\<close> reads one. A number of a JSON value is a
  finite double, given by its exact value (a numeral too large for a double, which
  \<^verbatim>\<open>JSON.parse\<close> reads as an infinity, is outside the embedding);
  \<^verbatim>\<open>JSON.stringify\<close> writes a finite number so that it is read back as the same
  double, and writes an infinity and \<^verbatim>\<open>NaN\<close> as \<^verbatim>\<open>null\<close>.
\<close>

datatype json =
    JNull
  | JBool bool
  | JNum rat
  | JStr string
  | JArr "json list"
  | JObj "(string \<times> json) list"

datatype parsed = SyntaxError | Parsed json

definition link_toJSON :: "string \<times> link_meta \<Rightarrow> json" where
  "link_toJSON e =
     (case e of (i, m) \<Rightarrow>
        JObj ([(''id'', JStr i), (''type'', JStr (link_type m))] @
              (case link_createdAt m of
                 None \<Rightarrow> []
               | Some c \<Rightarrow> [(''createdAt'', JStr c)])))"

text \<open>An infinity, \<^verbatim>\<open>NaN\<close> and \<^verbatim>\<open>null\<close> are all written as \<^verbatim>\<open>null\<close>.\<close>

definition number_toJSON :: "number \<Rightarrow> json" where
  "number_toJSON x = (case x of Fin q \<Rightarrow> JNum q | _ \<Rightarrow> JNull)"

definition position_toJSON :: "number position \<Rightarrow> json" where
  "position_toJSON p = JObj [(''x'', number_toJSON (pos_x p)), (''y'', number_toJSON (pos_y p))]"

definition size_toJSON :: "block_size \<Rightarrow> json" where
  "size_toJSON z =
     JObj [(''width'', number_toJSON (width z)), (''height'', number_toJSON (height z))]"

definition metadata_toJSON :: "metadata \<Rightarrow> json" where
  "metadata_toJSON m =
     JObj [(''createdAt'', JStr (createdAt m)), (''updatedAt'', JStr (updatedAt m))]"

definition toJSON :: "block \<Rightarrow> json" where
  "toJSON b =
     JObj [(''id'', JStr (block_id b)),
           (''content'', JStr (content b)),
           (''type'', JStr (block_type b)),
           (''links'', JArr (map link_toJSON (links b))),
           (''position'', position_toJSON (block_position b)),
           (''size'', size_toJSON (size_of_block b)),
           (''metadata'', metadata_toJSON (block_metadata b))]"

definition settings_toJSON :: "settings \<Rightarrow> json" where
  "settings_toJSON st =
     JObj [(''gridSize'', number_toJSON (gridSize st)),
           (''defaultSpacing'', number_toJSON (defaultSpacing st)),
           (''minBlockWidth'', number_toJSON (minBlockWidth st)),
           (''minBlockHeight'', number_toJSON (minBlockHeight st))]"

definition exportToJSON :: "engine \<Rightarrow> string \<Rightarrow> json" where
  "exportToJSON s now =
     JObj [(''blocks'', JArr (map toJSON (getAllBlocks s))),
           (''settings'', settings_toJSON (engine_settings s)),
           (''exportedAt'', JStr now)]"

text \<open>
  \<^verbatim>\<open>importFromJSON\<close> stores what it reads unchecked. The records above give every
  field the type of the data model (an id is a string, a coordinate a number or
  \<^verbatim>\<open>null\<close>), so the decoding below has three outcomes: \<open>Ok\<close> with the typed
  value, \<open>Throws\<close> where the
  source raises a \<^verbatim>\<open>TypeError\<close> (a property read on \<^verbatim>\<open>null\<close>, a call of
  \<^verbatim>\<open>forEach\<close> on a value that has none), and \<open>Untyped\<close> where the source would store
  a value of another type than the field's, which the records cannot hold.
  Reading a property of a value other than an object or \<^verbatim>\<open>null\<close> gives
  \<^verbatim>\<open>undefined\<close>, here \<open>None\<close>.
\<close>

datatype 'a step = Ok 'a | Throws | Untyped

definition property :: "json \<Rightarrow> string \<Rightarrow> json option" where
  "property d k = (case d of JObj fs \<Rightarrow> map_of fs k | _ \<Rightarrow> None)"

fun truthy :: "json \<Rightarrow> bool" where
  "truthy JNull = False"
| "truthy (JBool b) = b"
| "truthy (JNum n) = (n \<noteq> 0)"
| "truthy (JStr s) = (s \<noteq> [])"
| "truthy (JArr _) = True"
| "truthy (JObj _) = True"

text \<open>A constructor parameter with a default: \<^verbatim>\<open>undefined\<close> takes the default.\<close>

definition string_param :: "string \<Rightarrow> json option \<Rightarrow> string option" where
  "string_param dflt v =
     (case v of None \<Rightarrow> Some dflt | Some (JStr x) \<Rightarrow> Some x | Some _ \<Rightarrow> None)"

text \<open>\<^verbatim>\<open>link.type || 'single'\<close>\<close>

definition link_type_of :: "json option \<Rightarrow> string option" where
  "link_type_of v =
     (case v of
        None \<Rightarrow> Some ''single''
      | Some t \<Rightarrow>
          (if \<not> truthy t then Some ''single''
           else (case t of JStr x \<Rightarrow> Some x | _ \<Rightarrow> None)))"

definition link_createdAt_of :: "json option \<Rightarrow> string option option" where
  "link_createdAt_of v =
     (case v of None \<Rightarrow> Some None | Some (JStr c) \<Rightarrow> Some (Some c) | Some _ \<Rightarrow> None)"

text \<open>
  One entry of \<^verbatim>\<open>blockData.links\<close>, for an entry other than \<^verbatim>\<open>null\<close>; the result is
  \<open>None\<close> when the key or the metadata stored is not of the data model's type.
\<close>

definition import_link ::
  "string \<Rightarrow> json \<Rightarrow> (string \<times> link_meta) list \<Rightarrow> (string \<times> link_meta) list option" where
  "import_link now link ls =
     (case link of
        JStr i \<Rightarrow> Some (AList.update i \<lparr> link_type = ''single'', link_createdAt = Some now \<rparr> ls)
      | JObj fs \<Rightarrow>
          (case (map_of fs ''id'', link_type_of (map_of fs ''type''),
                 link_createdAt_of (map_of fs ''createdAt'')) of
             (Some (JStr i), Some t, Some c) \<Rightarrow>
               Some (AList.update i \<lparr> link_type = t, link_createdAt = c \<rparr> ls)
           | _ \<Rightarrow> None)
      | _ \<Rightarrow> None)"

text \<open>
  The loop over \<^verbatim>\<open>blockData.links\<close>. The table built so far is \<open>None\<close> once an entry
  was not of the data model's type; the loop goes on all the same, and \<^verbatim>\<open>link.id\<close>
  on a later \<^verbatim>\<open>null\<close> entry raises.
\<close>

fun import_links ::
  "string \<Rightarrow> json list \<Rightarrow> (string \<times> link_meta) list option
     \<Rightarrow> (string \<times> link_meta) list step" where
  "import_links now [] acc = (case acc of None \<Rightarrow> Untyped | Some ls \<Rightarrow> Ok ls)"
| "import_links now (JNull # rest) acc = Throws"
| "import_links now (link # rest) acc =
     import_links now rest (case acc of None \<Rightarrow> None | Some ls \<Rightarrow> import_link now link ls)"

text \<open>
  The value a numeric field takes from a property of the document: a number or
  \<^verbatim>\<open>null\<close>; \<open>None\<close> for a value of another type and for no property.
\<close>

definition number_of :: "json option \<Rightarrow> number option" where
  "number_of v =
     (case v of Some (JNum x) \<Rightarrow> Some (Fin x) | Some JNull \<Rightarrow> Some Null | _ \<Rightarrow> None)"

text \<open>\<^verbatim>\<open>blockData.position || { x: 0, y: 0 }\<close>\<close>

definition position_of :: "json option \<Rightarrow> number position option" where
  "position_of v =
     (case v of
        None \<Rightarrow> Some \<lparr> pos_x = Fin 0, pos_y = Fin 0 \<rparr>
      | Some p \<Rightarrow>
          (if \<not> truthy p then Some \<lparr> pos_x = Fin 0, pos_y = Fin 0 \<rparr>
           else (case (number_of (property p ''x''), number_of (property p ''y'')) of
                   (Some x, Some y) \<Rightarrow> Some \<lparr> pos_x = x, pos_y = y \<rparr>
                 | _ \<Rightarrow> None)))"

text \<open>\<^verbatim>\<open>blockData.size || { width: 250, height: 150 }\<close>\<close>

definition size_of :: "json option \<Rightarrow> block_size option" where
  "size_of v =
     (case v of
        None \<Rightarrow> Some \<lparr> width = Fin 250, height = Fin 150 \<rparr>
      | Some z \<Rightarrow>
          (if \<not> truthy z then Some \<lparr> width = Fin 250, height = Fin 150 \<rparr>
           else (case (number_of (property z ''width''), number_of (property z ''height'')) of
                   (Some w, Some h) \<Rightarrow> Some \<lparr> width = w, height = h \<rparr>
                 | _ \<Rightarrow> None)))"

definition metadata_of :: "json option \<Rightarrow> metadata option" where
  "metadata_of v =
     (case v of
        Some (JObj fs) \<Rightarrow>
          (case (map_of fs ''createdAt'', map_of fs ''updatedAt'') of
             (Some (JStr c), Some (JStr u)) \<Rightarrow> Some \<lparr> createdAt = c, updatedAt = u \<rparr>
           | _ \<Rightarrow> None)
      | _ \<Rightarrow> None)"

text \<open>
  The body of the loop over \<^verbatim>\<open>data.blocks\<close>, up to the block it builds: it raises on a
  \<^verbatim>\<open>null\<close> record (\<^verbatim>\<open>blockData.id\<close>) and on a \<^verbatim>\<open>null\<close> link entry.
\<close>

definition import_block :: "string \<Rightarrow> json \<Rightarrow> block step" where
  "import_block now blockData =
     (case blockData of
        JNull \<Rightarrow> Throws
      | _ \<Rightarrow>
          (case (case property blockData ''links'' of
                   Some (JArr ls) \<Rightarrow> import_links now ls (Some [])
                 | _ \<Rightarrow> Ok []) of
             Throws \<Rightarrow> Throws
           | Untyped \<Rightarrow> Untyped
           | Ok ls \<Rightarrow>
               (case (property blockData ''id'',
                      string_param [] (property blockData ''content''),
                      string_param ''default'' (property blockData ''type''),
                      position_of (property blockData ''position''),
                      size_of (property blockData ''size''),
                      metadata_of (property blockData ''metadata'')) of
                  (Some (JStr i), Some c, Some t, Some p, Some z, Some m) \<Rightarrow>
                    Ok ((new_Block now i c t)
                          \<lparr> links := ls, block_position := p, size_of_block := z,
                            block_metadata := m \<rparr>)
                | _ \<Rightarrow> Untyped)))"

text \<open>
  The loop over \<^verbatim>\<open>data.blocks\<close> on the store's table: \<open>Some (True, bs)\<close> when it
  completes with table \<open>bs\<close>, \<open>Some (False, bs)\<close> when a record raises with table \<open>bs\<close>
  built before it, \<open>None\<close> when a block stored is not of the data model's type.
\<close>

fun import_blocks ::
  "string \<Rightarrow> json list \<Rightarrow> (string \<times> block) list \<Rightarrow> (bool \<times> (string \<times> block) list) option" where
  "import_blocks now [] bs = Some (True, bs)"
| "import_blocks now (d # ds) bs =
     (case import_block now d of
        Throws \<Rightarrow> Some (False, bs)
      | Untyped \<Rightarrow> None
      | Ok b \<Rightarrow> import_blocks now ds (AList.update (block_id b) b bs))"

text \<open>
  A record with no \<^verbatim>\<open>metadata\<close> property, as a document older than the metadata may
  have, leaves \<^verbatim>\<open>block.metadata\<close> undefined. The \<open>block\<close> record, which follows the
  constructor, cannot hold such a block; \<open>legacy_block\<close> holds it, and \<open>stored\<close> is
  either. The operations of the engine are embedded for blocks with metadata only.
  \<open>import_legacy_block\<close> is the body of the loop for a record with no \<^verbatim>\<open>metadata\<close>
  and \<open>import_stored_blocks\<close> the loop for records of both kinds.
\<close>

record legacy_block =
  legacy_id :: string
  legacy_content :: string
  legacy_type :: string
  legacy_links :: "(string \<times> link_meta) list"
  legacy_position :: "number position"
  legacy_size :: block_size

datatype stored = WithMetadata block | NoMetadata legacy_block


definition import_legacy_block :: "string \<Rightarrow> json \<Rightarrow> legacy_block step" where
  "import_legacy_block now blockData =
     (case blockData of
        JNull \<Rightarrow> Throws
      | _ \<Rightarrow>
          (case (case property blockData ''links'' of
                   Some (JArr ls) \<Rightarrow> import_links now ls (Some [])
                 | _ \<Rightarrow> Ok []) of
             Throws \<Rightarrow> Throws
           | Untyped \<Rightarrow> Untyped
           | Ok ls \<Rightarrow>
               (case (property blockData ''id'',
                      string_param [] (property blockData ''content''),
                      string_param ''default'' (property blockData ''type''),
                      position_of (property blockData ''position''),
                      size_of (property blockData ''size''),
                      property blockData ''metadata'') of
                  (Some (JStr i), Some c, Some t, Some p, Some z, None) \<Rightarrow>
                    Ok \<lparr> legacy_id = i, legacy_content = c, legacy_type = t, legacy_links = ls,
                         legacy_position = p, legacy_size = z \<rparr>
                | _ \<Rightarrow> Untyped)))"

fun import_stored_blocks ::
  "string \<Rightarrow> json list \<Rightarrow> (string \<times> stored) list \<Rightarrow> (bool \<times> (string \<times> stored) list) option"
  where
  "import_stored_blocks now [] bs = Some (True, bs)"
| "import_stored_blocks now (d # ds) bs =
     (case import_block now d of
        Throws \<Rightarrow> Some (False, bs)
      | Ok b \<Rightarrow> import_stored_blocks now ds (AList.update (block_id b) (WithMetadata b) bs)
      | Untyped \<Rightarrow>
          (case import_legacy_block now d of
             Ok b \<Rightarrow> import_stored_blocks now ds (AList.update (legacy_id b) (NoMetadata b) bs)
           | _ \<Rightarrow> None))"

record legacy_engine =
  legacy_blocks :: "(string \<times> stored) list"
  legacy_settings :: settings
  legacy_events :: "event list"

text \<open>
  \<^verbatim>\<open>Object.assign(this.settings, data.settings)\<close> for a truthy \<^verbatim>\<open>data.settings\<close>: the
  four settings the engine reads are overwritten by the source's properties of these
  names. Properties of other names (all the properties of a string or an array are such)
  are added to the settings object, which the record does not show.
\<close>

definition number_setting :: "number \<Rightarrow> json option \<Rightarrow> number option" where
  "number_setting old v = (case v of None \<Rightarrow> Some old | Some _ \<Rightarrow> number_of v)"

definition assign_settings :: "settings \<Rightarrow> json \<Rightarrow> settings option" where
  "assign_settings st src =
     (case (number_setting (gridSize st) (property src ''gridSize''),
            number_setting (defaultSpacing st) (property src ''defaultSpacing''),
            number_setting (minBlockWidth st) (property src ''minBlockWidth''),
            number_setting (minBlockHeight st) (property src ''minBlockHeight'')) of
        (Some g, Some d, Some w, Some h) \<Rightarrow>
          Some \<lparr> gridSize = g, defaultSpacing = d, minBlockWidth = w, minBlockHeight = h \<rparr>
      | _ \<Rightarrow> None)"

text \<open>
  The outcome of \<^verbatim>\<open>importFromJSON\<close>: the value returned with the store left, where
  \<open>ReturnsLegacy\<close> has a store with a block without metadata; \<open>Unrepresentable\<close> when
  the store left has a value of another type than its field's.
\<close>

datatype import_result =
    Returns bool engine
  | ReturnsLegacy bool legacy_engine
  | Unrepresentable

text \<open>
  The loop over \<^verbatim>\<open>data.blocks\<close> and what follows it, when a record has no metadata:
  the loop runs on the cleared table and \<^verbatim>\<open>blocksImported\<close> is published when it
  completes.
\<close>

definition import_legacy :: "engine \<Rightarrow> string \<Rightarrow> json list \<Rightarrow> import_result" where
  "import_legacy s2 now ds =
     (case import_stored_blocks now ds [] of
        None \<Rightarrow> Unrepresentable
      | Some (True, bs) \<Rightarrow>
          ReturnsLegacy True
            \<lparr> legacy_blocks = bs, legacy_settings = engine_settings s2,
              legacy_events = events s2 @ [BlocksImported (length ds)] \<rparr>
      | Some (False, bs) \<Rightarrow>
          ReturnsLegacy False
            \<lparr> legacy_blocks = bs, legacy_settings = engine_settings s2,
              legacy_events = events s2 \<rparr>)"

definition importFromJSON :: "engine \<Rightarrow> string \<Rightarrow> parsed \<Rightarrow> import_result" where
  "importFromJSON s now jsonData =
     (case jsonData of
        SyntaxError \<Rightarrow> Returns False s
      | Parsed data \<Rightarrow>
          (let s1 = s \<lparr> blocks := [] \<rparr>
           in case data of
                JNull \<Rightarrow> Returns False s1
              | _ \<Rightarrow>
                  (case (case property data ''settings'' of
                           None \<Rightarrow> Some (engine_settings s1)
                         | Some v \<Rightarrow>
                             (if truthy v then assign_settings (engine_settings s1) v
                              else Some (engine_settings s1))) of
                     None \<Rightarrow> Unrepresentable
                   | Some st \<Rightarrow>
                       (let s2 = s1 \<lparr> engine_settings := st \<rparr>
                        in case property data ''blocks'' of
                             Some (JArr ds) \<Rightarrow>
                               (case import_blocks now ds (blocks s2) of
                                  None \<Rightarrow> import_legacy s2 now ds
                                | Some (True, bs) \<Rightarrow>
                                    Returns True
                                      (emit (BlocksImported (length ds)) (s2 \<lparr> blocks := bs \<rparr>))
                                | Some (False, bs) \<Rightarrow> Returns False (s2 \<lparr> blocks := bs \<rparr>))
                           | _ \<Rightarrow> Returns False s2))))"

subsection \<open>Connector geometry\<close>

text \<open>
  \<^verbatim>\<open>BlockRenderer.getConnectionPoint\<close> on the three rectangles it reads from the page:
  the source's, the target's and the container's, with the container's scroll offsets.
  The result is \<open>None\<close> when a divisor is zero: the quotient is then an infinity or
  \<^verbatim>\<open>NaN\<close>, which the rationals do not have.
\<close>

record rect =
  left :: rat
  top :: rat
  rect_width :: rat
  rect_height :: rat

definition Math_sign :: "rat \<Rightarrow> rat" where
  "Math_sign x = (if x > 0 then 1 else if x < 0 then - 1 else 0)"

definition getConnectionPoint ::
  "rect \<Rightarrow> rect \<Rightarrow> rect \<Rightarrow> rat \<Rightarrow> rat \<Rightarrow> rat position option" where
  "getConnectionPoint sourceRect targetRect containerRect scrollLeft scrollTop =
     (let sourceCenterX = left sourceRect + rect_width sourceRect / 2;
          sourceCenterY = top sourceRect + rect_height sourceRect / 2;
          targetCenterX = left targetRect + rect_width targetRect / 2;
          targetCenterY = top targetRect + rect_height targetRect / 2;
          dx = targetCenterX - sourceCenterX;
          dy = targetCenterY - sourceCenterY
      in if rect_width sourceRect = 0 \<or> rect_height sourceRect = 0 then None
         else
           (let widthRatio = \<bar>dx\<bar> / rect_width sourceRect;
                heightRatio = \<bar>dy\<bar> / rect_height sourceRect
            in if widthRatio > heightRatio
               then (if dx = 0 then None
                     else
                       (let sign = Math_sign dx;
                            intersectionX = sourceCenterX + sign * (rect_width sourceRect / 2);
                            intersectionY =
                              sourceCenterY + dy * (sign * (rect_width sourceRect / 2) / dx)
                        in Some \<lparr> pos_x = intersectionX - left containerRect + scrollLeft,
                                  pos_y = intersectionY - top containerRect + scrollTop \<rparr>))
               else (if dy = 0 then None
                     else
                       (let sign = Math_sign dy;
                            intersectionY = sourceCenterY + sign * (rect_height sourceRect / 2);
                            intersectionX =
                              sourceCenterX + dx * (sign * (rect_height sourceRect / 2) / dy)
                        in Some \<lparr> pos_x = intersectionX - left containerRect + scrollLeft,
                                  pos_y = intersectionY - top containerRect + scrollTop \<rparr>))))"

section \<open>Observations and examples\<close>

text \<open>
  The edge state of a store: for every block, in the store's order, the targets and types
  of its link table in the table's order. Timestamps are left out.
\<close>

definition edge_state :: "engine \<Rightarrow> (string \<times> (string \<times> string) list) list" where
  "edge_state s = map (\<lambda>(k, b). (k, map (\<lambda>(t, m). (t, link_type m)) (links b))) (blocks s)"

text \<open>
  The entries the pair holds for each other: the type of the edge from \<open>a\<close> to \<open>b\<close>
  and the type of the edge from \<open>b\<close> to \<open>a\<close>, \<open>None\<close> for no edge.
\<close>

definition pair_edges :: "engine \<Rightarrow> string \<Rightarrow> string \<Rightarrow> string option \<times> string option" where
  "pair_edges s a b =
     (Option.bind (getBlock s a) (\<lambda>x. getLinkType x b),
      Option.bind (getBlock s b) (\<lambda>x. getLinkType x a))"

text \<open>The link operations seen on the edge state.\<close>

definition link_view :: "block \<Rightarrow> (string \<times> string) list" where
  "link_view b = map (\<lambda>(t, m). (t, link_type m)) (links b)"

type_synonym edges = "(string \<times> (string \<times> string) list) list"

definition install_view :: "string \<Rightarrow> string \<Rightarrow> string \<Rightarrow> edges \<Rightarrow> edges" where
  "install_view a b t es =
     (if t = ''single'' then AList.map_entry a (AList.update b ''single'') es
      else if t = ''reverse'' then AList.map_entry b (AList.update a ''single'') es
      else if t = ''double''
        then AList.map_entry b (AList.update a ''double'')
               (AList.map_entry a (AList.update b ''double'') es)
      else es)"

definition link_view_op :: "string \<Rightarrow> string \<Rightarrow> string \<Rightarrow> edges \<Rightarrow> edges" where
  "link_view_op a b t es =
     install_view a b t
       (AList.map_entry b (AList.delete a) (AList.map_entry a (AList.delete b) es))"

text \<open>
  A store made through the store's own operations: blocks \<open>a\<close> and \<open>b\<close>, both
  auto-placed, no links.
\<close>

definition two_blocks :: engine where
  "two_blocks =
     snd (createBlock (snd (createBlock new_BlockEngine ''t0'' ''a'' ''A'' ''default'' None None))
            ''t1'' ''b'' ''B'' ''default'' None None)"

text \<open>
  The edges an intent prescribes for a pair of distinct blocks, forward and backward, in
  the words of the specification of \<^verbatim>\<open>linkBlocks\<close>.
\<close>

definition intent_edges :: "string \<Rightarrow> string option \<times> string option" where
  "intent_edges t =
     (if t = ''single'' then (Some ''single'', None)
      else if t = ''reverse'' then (None, Some ''single'')
      else (Some ''double'', Some ''double''))"

text \<open>The position stored for a block.\<close>

definition position_of_block :: "engine \<Rightarrow> string \<Rightarrow> number position option" where
  "position_of_block s k = map_option block_position (getBlock s k)"


text \<open>
  Auto-placement in the words of the specification: \<open>(50, 50)\<close> for the empty store,
  otherwise the block of greatest \<open>x\<close>, the later-scanned of two blocks of equal \<open>x\<close>
  winning, and the new block \<open>defaultSpacing\<close> to its right.
\<close>

fun last_rightmost :: "block list \<Rightarrow> block \<Rightarrow> block" where
  "last_rightmost [] best = best"
| "last_rightmost (b # bs) best =
     (if js_gt (pos_x (block_position best)) (pos_x (block_position b)) then last_rightmost bs best
      else last_rightmost bs b)"

definition spec_autoPosition :: "engine \<Rightarrow> number position" where
  "spec_autoPosition s =
     (case getAllBlocks s of
        [] \<Rightarrow> \<lparr> pos_x = Fin 50, pos_y = Fin 50 \<rparr>
      | b # bs \<Rightarrow>
          (let that = last_rightmost bs b
           in \<lparr> pos_x = js_add (pos_x (block_position that)) (defaultSpacing (engine_settings s)),
                pos_y = pos_y (block_position that) \<rparr>))"

text \<open>
  Two stores for auto-placement: two blocks of equal \<open>x\<close>, and one block on the left
  border.
\<close>

definition tied_blocks :: engine where
  "tied_blocks =
     snd (createBlock
            (snd (createBlock new_BlockEngine ''t0'' ''a'' ''A'' ''default''
                    (Some \<lparr> pos_x = Fin 100, pos_y = Fin 10 \<rparr>) None))
            ''t1'' ''b'' ''B'' ''default'' (Some \<lparr> pos_x = Fin 100, pos_y = Fin 20 \<rparr>) None)"

definition border_block :: engine where
  "border_block =
     snd (createBlock new_BlockEngine ''t0'' ''a'' ''A'' ''default''
            (Some \<lparr> pos_x = Fin 0, pos_y = Fin 100 \<rparr>) None)"


definition grid_document :: "rat \<Rightarrow> json" where
  "grid_document g =
     JObj [(''blocks'', JArr []), (''settings'', JObj [(''gridSize'', JNum g)])]"

definition grid_engine :: "rat \<Rightarrow> engine" where
  "grid_engine g =
     \<lparr> blocks = [],
       engine_settings =
         \<lparr> gridSize = Fin g, defaultSpacing = Fin 300, minBlockWidth = Fin 150,
           minBlockHeight = Fin 100 \<rparr>,
       events = [BlocksImported 0] \<rparr>"

definition grid_store :: "rat \<Rightarrow> engine" where
  "grid_store g = snd (createBlock (grid_engine g) ''t1'' ''a'' ''A'' ''default'' None None)"

text \<open>
  With \<^verbatim>\<open>gridSize\<close> 0 a snapped move stores \<^verbatim>\<open>NaN\<close>: \<open>nan_store\<close> is the store after
  \<^verbatim>\<open>setBlockPosition('a', 5, 5, true)\<close>.
\<close>

definition nan_store :: engine where
  "nan_store = snd (setBlockPosition (grid_store 0) ''t2'' ''a'' (Fin 5) (Fin 5) True)"

text \<open>
  A number after \<^verbatim>\<open>JSON.stringify\<close> and \<^verbatim>\<open>JSON.parse\<close>: a finite number is itself,
  every other value is \<^verbatim>\<open>null\<close>. \<open>reread_block\<close> and \<open>reread_settings\<close> are a block
  and the settings with their numbers so changed.
\<close>

definition json_number :: "number \<Rightarrow> number" where
  "json_number x = (case x of Fin q \<Rightarrow> Fin q | _ \<Rightarrow> Null)"

definition reread_block :: "block \<Rightarrow> block" where
  "reread_block b =
     b \<lparr> block_position :=
           \<lparr> pos_x = json_number (pos_x (block_position b)),
             pos_y = json_number (pos_y (block_position b)) \<rparr>,
         size_of_block :=
           \<lparr> width = json_number (width (size_of_block b)),
             height = json_number (height (size_of_block b)) \<rparr> \<rparr>"

definition reread_settings :: "settings \<Rightarrow> settings" where
  "reread_settings st =
     \<lparr> gridSize = json_number (gridSize st), defaultSpacing = json_number (defaultSpacing st),
       minBlockWidth = json_number (minBlockWidth st),
       minBlockHeight = json_number (minBlockHeight st) \<rparr>"

text \<open>A store all of whose numbers are finite.\<close>

definition finite_number :: "number \<Rightarrow> bool" where
  "finite_number x = (case x of Fin q \<Rightarrow> True | _ \<Rightarrow> False)"

definition finite_block :: "block \<Rightarrow> bool" where
  "finite_block b =
     (finite_number (pos_x (block_position b)) \<and> finite_number (pos_y (block_position b)) \<and>
      finite_number (width (size_of_block b)) \<and> finite_number (height (size_of_block b)))"

definition finite_store :: "engine \<Rightarrow> bool" where
  "finite_store s =
     (list_all (\<lambda>(k, b). finite_block b) (blocks s) \<and>
      finite_number (gridSize (engine_settings s)) \<and>
      finite_number (defaultSpacing (engine_settings s)) \<and>
      finite_number (minBlockWidth (engine_settings s)) \<and>
      finite_number (minBlockHeight (engine_settings s)))"

text \<open>
  No dangling entry: every entry of every block's link table names a key of the store's
  table of blocks.
\<close>

definition no_dangling :: "engine \<Rightarrow> bool" where
  "no_dangling s =
     list_all (\<lambda>(k, b). list_all (\<lambda>(t, m). getBlock s t \<noteq> None) (links b)) (blocks s)"

text \<open>A document of one block with a link to an id that no record of the document has.\<close>

definition ghost_document :: json where
  "ghost_document =
     JObj [(''blocks'',
            JArr [JObj [(''id'', JStr ''a''),
                        (''links'', JArr [JStr ''ghost'']),
                        (''metadata'',
                         JObj [(''createdAt'', JStr ''t0''), (''updatedAt'', JStr ''t0'')])]])]"

text \<open>
  A store with a dangling entry, as that import leaves it: blocks \<open>a\<close> and \<open>b\<close>, where
  \<open>a\<close> has an entry for \<open>b\<close> and one for an id that is no block.
\<close>

definition dangling_document :: json where
  "dangling_document =
     JObj [(''blocks'',
            JArr [JObj [(''id'', JStr ''a''),
                        (''links'', JArr [JStr ''ghost'', JStr ''b'']),
                        (''metadata'',
                         JObj [(''createdAt'', JStr ''t0''), (''updatedAt'', JStr ''t0'')])],
                  JObj [(''id'', JStr ''b''),
                        (''metadata'',
                         JObj [(''createdAt'', JStr ''t0''), (''updatedAt'', JStr ''t0'')])]])]"

definition dangling_blocks :: engine where
  "dangling_blocks =
     (case importFromJSON new_BlockEngine ''t1'' (Parsed dangling_document) of
        Returns ok s \<Rightarrow> s
      | _ \<Rightarrow> new_BlockEngine)"

text \<open>
  The stores the operations produce. The keys of a table are distinct, as a \<^verbatim>\<open>Map\<close>'s
  are; a block is stored under its own id (\<^verbatim>\<open>createBlock\<close> and \<^verbatim>\<open>importFromJSON\<close> both
  call \<^verbatim>\<open>blocks.set\<close> with the block's id); and no link type is the empty string
  (\<^verbatim>\<open>linkBlocks\<close> stores \<^verbatim>\<open>'single'\<close> or \<^verbatim>\<open>'double'\<close>, the import replaces an empty
  type by \<^verbatim>\<open>'single'\<close>).
\<close>

definition wf_links :: "(string \<times> link_meta) list \<Rightarrow> bool" where
  "wf_links ls = (distinct (map fst ls) \<and> list_all (\<lambda>(t, m). link_type m \<noteq> []) ls)"

definition wf_blocks :: "(string \<times> block) list \<Rightarrow> bool" where
  "wf_blocks bs =
     (distinct (map fst bs) \<and> list_all (\<lambda>(k, b). block_id b = k \<and> wf_links (links b)) bs)"

definition wf_store :: "engine \<Rightarrow> bool" where
  "wf_store s = wf_blocks (blocks s)"

text \<open>The stores reached from a new engine by the operations embedded above.\<close>

inductive reachable :: "engine \<Rightarrow> bool" where
  init: "reachable new_BlockEngine"
| create: "reachable s \<Longrightarrow> reachable (snd (createBlock s now newId c t pos sz))"
| move: "reachable s \<Longrightarrow> reachable (snd (setBlockPosition s now k x y snapToGrid))"
| resize: "reachable s \<Longrightarrow> reachable (snd (setBlockSize s now k w h))"
| edit: "reachable s \<Longrightarrow> reachable (snd (setBlockContent s now k c))"
| link: "reachable s \<Longrightarrow> reachable (snd (linkBlocks s now a b t))"
| unlink: "reachable s \<Longrightarrow> reachable (snd (unlinkBlocks s now a b))"
| delete: "reachable s \<Longrightarrow> reachable (snd (deleteBlock s now k))"
| load: "reachable s \<Longrightarrow> importFromJSON s now doc = Returns ok s' \<Longrightarrow> reachable s'"

text \<open>The store that the import of the export of \<open>nan_store\<close> into a new engine leaves.\<close>

definition nan_reimported :: engine where
  "nan_reimported =
     (case importFromJSON new_BlockEngine ''t4'' (Parsed (exportToJSON nan_store ''t3'')) of
        Returns ok s \<Rightarrow> s
      | _ \<Rightarrow> new_BlockEngine)"

text \<open>The store of two blocks linked both ways.\<close>

definition linked_blocks :: engine where
  "linked_blocks = snd (linkBlocks two_blocks ''t2'' ''a'' ''b'' ''double'')"






text \<open>
  What an import leaves: whether it returned true, the link table of the block stored
  under \<open>k\<close>, and the edge from \<open>k\<close> to \<open>j\<close>.
\<close>

definition succeeded :: "import_result \<Rightarrow> bool" where
  "succeeded res =
     (case res of Returns ok s \<Rightarrow> ok | ReturnsLegacy ok s \<Rightarrow> ok | Unrepresentable \<Rightarrow> False)"







definition x_record :: json where
  "x_record =
     JObj [(''id'', JStr ''x''),
           (''metadata'', JObj [(''createdAt'', JStr ''t0''), (''updatedAt'', JStr ''t0'')])]"

definition partial_document :: json where
  "partial_document = JObj [(''blocks'', JArr [x_record, JNull])]"

text \<open>The block the import builds from the first record of that list.\<close>

definition x_block :: block where
  "x_block =
     \<lparr> block_id = ''x'', content = [], block_type = ''default'', links = [],
       block_position = \<lparr> pos_x = Fin 0, pos_y = Fin 0 \<rparr>,
       size_of_block = \<lparr> width = Fin 250, height = Fin 150 \<rparr>,
       block_metadata = \<lparr> createdAt = ''t0'', updatedAt = ''t0'' \<rparr> \<rparr>"


text \<open>
  Rectangles of the anchor example (\<open>B\<close> to the right of \<open>A\<close>, \<open>C\<close> below it), a
  container at the origin, and a rectangle's center.
\<close>

definition origin :: rect where
  "origin = \<lparr> left = 0, top = 0, rect_width = 0, rect_height = 0 \<rparr>"

definition rect_A :: rect where
  "rect_A = \<lparr> left = 0, top = 0, rect_width = 100, rect_height = 100 \<rparr>"

definition rect_B :: rect where
  "rect_B = \<lparr> left = 300, top = 0, rect_width = 100, rect_height = 100 \<rparr>"

definition rect_C :: rect where
  "rect_C = \<lparr> left = 0, top = 300, rect_width = 100, rect_height = 100 \<rparr>"

definition centerX :: "rect \<Rightarrow> rat" where
  "centerX r = left r + rect_width r / 2"

definition centerY :: "rect \<Rightarrow> rat" where
  "centerY r = top r + rect_height r / 2"


section \<open>Properties\<close>

subsection \<open>Tables and blocks\<close>

lemma map_entry_twice:
  "AList.map_entry k f (AList.map_entry k g xs) = AList.map_entry k (f \<circ> g) xs"
  by (induction xs) auto

lemma map_entry_swap:
  "k \<noteq> k' \<Longrightarrow>
   AList.map_entry k f (AList.map_entry k' g xs) = AList.map_entry k' g (AList.map_entry k f xs)"
  by (induction xs) auto

lemma map_entry_ext:
  "(\<And>v. f v = g v) \<Longrightarrow> xs = ys \<Longrightarrow> AList.map_entry k f xs = AList.map_entry k g ys"
  by (induction xs arbitrary: ys) auto

lemma in_set_deleteD: "p \<in> set (AList.delete k xs) \<Longrightarrow> p \<in> set xs"
  by (auto simp: AList.delete_eq)

lemma getBlock_on_block:
  "getBlock (on_block k f s) k' = (if k' = k then map_option f (getBlock s k) else getBlock s k')"
  by (auto simp: getBlock_def on_block_def map_of_map_entry split: option.splits)

lemma getBlock_emit [simp]: "getBlock (emit e s) k = getBlock s k"
  by (simp add: getBlock_def emit_def)

lemma hasLink_addLink: "hasLink (addLink now k t b) k' = (k' = k \<or> hasLink b k')"
  by (auto simp: hasLink_def addLink_def touch_def update_conv')

lemma hasLink_removeLink: "hasLink (removeLink now k b) k' = (k' \<noteq> k \<and> hasLink b k')"
  by (auto simp: hasLink_def removeLink_def touch_def delete_conv')

lemma getLinkType_addLink:
  "getLinkType (addLink now k t b) k' = (if k' = k then Some t else getLinkType b k')"
  by (auto simp: getLinkType_def addLink_def touch_def update_conv')

lemma getLinkType_removeLink:
  "getLinkType (removeLink now k b) k' = (if k' = k then None else getLinkType b k')"
  by (auto simp: getLinkType_def removeLink_def touch_def delete_conv')

lemma map_update_view:
  "map (\<lambda>(t, m). (t, link_type m)) (AList.update k v xs) =
     AList.update k (link_type v) (map (\<lambda>(t, m). (t, link_type m)) xs)"
  by (induction xs) auto

lemma map_delete_view:
  "map (\<lambda>(t, m). (t, link_type m)) (AList.delete k xs) =
     AList.delete k (map (\<lambda>(t, m). (t, link_type m)) xs)"
  by (induction xs) auto

lemma link_view_addLink: "link_view (addLink now k t b) = AList.update k t (link_view b)"
  by (simp add: link_view_def addLink_def touch_def map_update_view)

lemma link_view_removeLink: "link_view (removeLink now k b) = AList.delete k (link_view b)"
  by (simp add: link_view_def removeLink_def touch_def map_delete_view)

lemma edge_state_alt: "edge_state s = map (\<lambda>(k, b). (k, link_view b)) (blocks s)"
  by (simp add: edge_state_def link_view_def)

lemma edge_state_emit [simp]: "edge_state (emit e s) = edge_state s"
  by (simp add: edge_state_def emit_def)

lemma map_map_entry_view:
  "(\<And>b. link_view (f b) = g (link_view b)) \<Longrightarrow>
   map (\<lambda>(k, b). (k, link_view b)) (AList.map_entry k f xs) =
     AList.map_entry k g (map (\<lambda>(k, b). (k, link_view b)) xs)"
  by (induction xs) auto

lemma edge_state_on_block:
  "(\<And>b. link_view (f b) = g (link_view b)) \<Longrightarrow>
   edge_state (on_block k f s) = AList.map_entry k g (edge_state s)"
  by (simp add: edge_state_alt on_block_def map_map_entry_view)

lemma edge_state_addLink:
  "edge_state (on_block k (addLink now j t) s) =
     AList.map_entry k (AList.update j t) (edge_state s)"
  by (rule edge_state_on_block) (rule link_view_addLink)

lemma edge_state_removeLink:
  "edge_state (on_block k (removeLink now j) s) =
     AList.map_entry k (AList.delete j) (edge_state s)"
  by (rule edge_state_on_block) (rule link_view_removeLink)

lemma edge_state_linkBlocks:
  "getBlock s a \<noteq> None \<Longrightarrow> getBlock s b \<noteq> None \<Longrightarrow>
   edge_state (snd (linkBlocks s now a b t)) = link_view_op a b t (edge_state s)"
  by (simp add: linkBlocks_def Let_def install_links_def install_view_def link_view_op_def
        edge_state_addLink edge_state_removeLink del: not_None_eq)

lemma link_view_op_idem: "link_view_op a b t (link_view_op a b t es) = link_view_op a b t es"
proof (cases "a = b")
  case True
  then show ?thesis
    apply (simp add: link_view_op_def install_view_def map_entry_twice)
    apply (intro conjI impI map_entry_ext; simp add: delete_update_same delete_idem)
    done
next
  case False
  then have ba: "b \<noteq> a" by simp
  show ?thesis
    apply (simp add: link_view_op_def install_view_def map_entry_twice map_entry_swap [OF False])
    apply (simp add: map_entry_twice map_entry_swap [OF ba])
    apply (intro conjI impI map_entry_ext; simp add: delete_update_same delete_idem)
    done
qed

lemma getBlock_linkBlocks:
  assumes "getBlock s a \<noteq> None" and "getBlock s b \<noteq> None"
  shows "getBlock (snd (linkBlocks s now a b t)) k =
           getBlock (install_links now a b t
             (on_block b (removeLink now a) (on_block a (removeLink now b) s))) k"
  using assms by (simp add: linkBlocks_def Let_def del: not_None_eq)

lemma two_blocks_present:
  "getBlock two_blocks ''a'' \<noteq> None" "getBlock two_blocks ''b'' \<noteq> None"
  by code_simp+

subsection \<open>Link reconciler\<close>

text \<open>
  Claim C1, as amended. For every two distinct blocks \<open>a\<close> and \<open>b\<close> of the store,
  whatever edges they had, after \<^verbatim>\<open>linkBlocks(a, b, 'reverse')\<close> the call
  \<^verbatim>\<open>getLinkInfo(a, b)\<close> returns the type \<^verbatim>\<open>'reverse'\<close> with \<open>from\<close> the id of \<open>b\<close>
  and \<open>to\<close> the id of \<open>a\<close>: the arguments are swapped to the direction of the edge
  that exists, and the type names the caller's intent, not \<^verbatim>\<open>'single'\<close>.
\<close>

theorem reverse_link_info:
  assumes "getBlock s a \<noteq> None" and "getBlock s b \<noteq> None" and "a \<noteq> b"
  shows "getLinkInfo (snd (linkBlocks s now a b ''reverse'')) a b =
           Some \<lparr> info_type = ''reverse'', info_from = b, info_to = a \<rparr>"
  using assms
  by (auto simp: linkBlocks_def getLinkInfo_def install_links_def Let_def getBlock_on_block
        hasLink_addLink hasLink_removeLink)

theorem reverse_link_info_witness:
  "getBlock two_blocks ''a'' \<noteq> None \<and> getBlock two_blocks ''b'' \<noteq> None \<and> ''a'' \<noteq> ''b'' \<and>
   getLinkInfo (snd (linkBlocks two_blocks ''t2'' ''a'' ''b'' ''reverse'')) ''a'' ''b'' =
     Some \<lparr> info_type = ''reverse'', info_from = ''b'', info_to = ''a'' \<rparr>"
proof -
  have ne: "''a'' \<noteq> ''b''" by simp
  from reverse_link_info [OF two_blocks_present ne, of "''t2''"] two_blocks_present ne
  show ?thesis by blast
qed

text \<open>
  The claim as stated fails on the store of two unlinked blocks: the type returned is not
  \<^verbatim>\<open>'single'\<close>.
\<close>

theorem reverse_link_info_counterexample:
  "getBlock two_blocks ''a'' \<noteq> None \<and> getBlock two_blocks ''b'' \<noteq> None \<and>
   getLinkInfo two_blocks ''a'' ''b'' = None \<and> getLinkInfo two_blocks ''b'' ''a'' = None \<and>
   getLinkInfo (snd (linkBlocks two_blocks ''t2'' ''a'' ''b'' ''reverse'')) ''a'' ''b'' =
     Some \<lparr> info_type = ''reverse'', info_from = ''b'', info_to = ''a'' \<rparr> \<and>
   getLinkInfo (snd (linkBlocks two_blocks ''t2'' ''a'' ''b'' ''reverse'')) ''a'' ''b'' \<noteq>
     Some \<lparr> info_type = ''single'', info_from = ''b'', info_to = ''a'' \<rparr>"
  by code_simp

text \<open>
  Claim C10. For every two blocks \<open>a\<close> and \<open>b\<close> of the store and every intent other
  than \<^verbatim>\<open>'single'\<close>, \<^verbatim>\<open>'reverse'\<close> and \<^verbatim>\<open>'double'\<close>, \<^verbatim>\<open>linkBlocks(a, b, intent)\<close>
  returns true, leaves the blocks as \<^verbatim>\<open>unlinkBlocks(a, b)\<close> leaves them (the edges
  between the pair are removed in both directions, no table gains an entry) and
  publishes \<^verbatim>\<open>blocksLinked\<close> with the intent given.
\<close>

theorem unknown_intent_unlinks:
  assumes "getBlock s a \<noteq> None" and "getBlock s b \<noteq> None"
    and "t \<noteq> ''single''" and "t \<noteq> ''reverse''" and "t \<noteq> ''double''"
  shows "fst (linkBlocks s now a b t) = True \<and>
         blocks (snd (linkBlocks s now a b t)) = blocks (snd (unlinkBlocks s now a b)) \<and>
         events (snd (linkBlocks s now a b t)) = events s @ [BlocksLinked a b t] \<and>
         getLinkInfo (snd (linkBlocks s now a b t)) a b = None \<and>
         (\<forall>k x. getBlock (snd (linkBlocks s now a b t)) k = Some x \<longrightarrow>
            (\<exists>x0. getBlock s k = Some x0 \<and> set (links x) \<subseteq> set (links x0)))"
proof -
  have st: "linkBlocks s now a b t =
      (True, emit (BlocksLinked a b t) (on_block b (removeLink now a) (on_block a (removeLink now b) s)))"
    using assms by (simp add: linkBlocks_def install_links_def Let_def del: not_None_eq)
  have un: "unlinkBlocks s now a b =
      (True, emit (BlocksUnlinked a b) (on_block b (removeLink now a) (on_block a (removeLink now b) s)))"
    using assms by (simp add: unlinkBlocks_def Let_def del: not_None_eq)
  have c1: "fst (linkBlocks s now a b t) = True" by (simp add: st)
  have c2: "blocks (snd (linkBlocks s now a b t)) = blocks (snd (unlinkBlocks s now a b))"
    by (simp add: st un emit_def)
  have c3: "events (snd (linkBlocks s now a b t)) = events s @ [BlocksLinked a b t]"
    by (simp add: st emit_def on_block_def)
  have c4: "getLinkInfo (snd (linkBlocks s now a b t)) a b = None"
    using assms(1,2)
    by (auto simp: st getLinkInfo_def getBlock_on_block hasLink_removeLink Let_def)
  have c5: "\<exists>x0. getBlock s k = Some x0 \<and> set (links x) \<subseteq> set (links x0)"
    if "getBlock (snd (linkBlocks s now a b t)) k = Some x" for k x
    using that
    by (auto simp: st getBlock_on_block removeLink_def touch_def delete_idem split: if_splits
          dest: in_set_deleteD)
  from c1 c2 c3 c4 c5 show ?thesis by blast
qed

theorem unknown_intent_unlinks_witness:
  "getBlock two_blocks ''a'' \<noteq> None \<and> getBlock two_blocks ''b'' \<noteq> None \<and>
   fst (linkBlocks two_blocks ''t2'' ''a'' ''b'' ''sideways'') = True \<and>
   events (snd (linkBlocks two_blocks ''t2'' ''a'' ''b'' ''sideways'')) =
     events two_blocks @ [BlocksLinked ''a'' ''b'' ''sideways''] \<and>
   getLinkInfo (snd (linkBlocks two_blocks ''t2'' ''a'' ''b'' ''sideways'')) ''a'' ''b'' = None"
proof -
  have t: "''sideways'' \<noteq> ''single''" "''sideways'' \<noteq> ''reverse''" "''sideways'' \<noteq> ''double''"
    by simp_all
  from unknown_intent_unlinks [OF two_blocks_present t, of "''t2''"] two_blocks_present
  show ?thesis by blast
qed

text \<open>
  Claim C5. For every two blocks \<open>a\<close> and \<open>b\<close> of the store and every intent among
  \<^verbatim>\<open>'single'\<close>, \<^verbatim>\<open>'reverse'\<close> and \<^verbatim>\<open>'double'\<close>, after \<^verbatim>\<open>linkBlocks(a, b, intent)\<close>
  \<^item> the entries distinct blocks \<open>a\<close> and \<open>b\<close> hold for each other are those the
    intent prescribes;
  \<^item> every other entry of every table is as before;
  \<^item> the entries of the pair are the same from any prior store that has both blocks;
  \<^item> a second call with the same arguments leaves the edge state of the first.
\<close>

theorem linkBlocks_edges:
  assumes "getBlock s a \<noteq> None" and "getBlock s b \<noteq> None"
    and "t \<in> {''single'', ''reverse'', ''double''}"
  shows "(a \<noteq> b \<longrightarrow> pair_edges (snd (linkBlocks s now a b t)) a b = intent_edges t) \<and>
         (\<forall>k j x. getBlock (snd (linkBlocks s now a b t)) k = Some x \<and>
                  \<not> (k = a \<and> j = b) \<and> \<not> (k = b \<and> j = a) \<longrightarrow>
            (\<exists>x0. getBlock s k = Some x0 \<and> getLinkType x j = getLinkType x0 j)) \<and>
         (\<forall>s2 now2. getBlock s2 a \<noteq> None \<and> getBlock s2 b \<noteq> None \<longrightarrow>
            pair_edges (snd (linkBlocks s2 now2 a b t)) a b =
              pair_edges (snd (linkBlocks s now a b t)) a b) \<and>
         edge_state (snd (linkBlocks (snd (linkBlocks s now a b t)) now' a b t)) =
           edge_state (snd (linkBlocks s now a b t))"
proof -
  let ?s' = "snd (linkBlocks s now a b t)"
  have pair: "pair_edges (snd (linkBlocks s2 now2 a b t)) a b =
      (if a = b then (if t = ''double'' then (Some ''double'', Some ''double'')
                      else (Some ''single'', Some ''single''))
       else intent_edges t)"
    if "getBlock s2 a \<noteq> None" and "getBlock s2 b \<noteq> None" for s2 now2
    using that assms(3)
    by (auto simp: pair_edges_def getBlock_linkBlocks install_links_def getBlock_on_block
          getLinkType_addLink getLinkType_removeLink intent_edges_def)
  have c1: "a \<noteq> b \<longrightarrow> pair_edges ?s' a b = intent_edges t"
    using pair [OF assms(1,2)] by simp
  have c2: "\<exists>x0. getBlock s k = Some x0 \<and> getLinkType x j = getLinkType x0 j"
    if "getBlock ?s' k = Some x" and "\<not> (k = a \<and> j = b)" and "\<not> (k = b \<and> j = a)" for k j x
    using that assms(3)
    by (auto simp: getBlock_linkBlocks [OF assms(1,2)] install_links_def getBlock_on_block
          getLinkType_addLink getLinkType_removeLink split: if_splits)
  have c3: "pair_edges (snd (linkBlocks s2 now2 a b t)) a b = pair_edges ?s' a b"
    if "getBlock s2 a \<noteq> None \<and> getBlock s2 b \<noteq> None" for s2 now2
    using that pair [of s2 now2] pair [OF assms(1,2)] by simp
  have pres: "getBlock ?s' a \<noteq> None" "getBlock ?s' b \<noteq> None"
    using assms(1,2)
    by (auto simp: getBlock_linkBlocks install_links_def getBlock_on_block)
  have c4: "edge_state (snd (linkBlocks ?s' now' a b t)) = edge_state ?s'"
    by (simp add: edge_state_linkBlocks [OF pres] edge_state_linkBlocks [OF assms(1,2)]
          link_view_op_idem)
  from c1 c2 c3 c4 show ?thesis by blast
qed

theorem linkBlocks_edges_witness:
  "getBlock two_blocks ''a'' \<noteq> None \<and> getBlock two_blocks ''b'' \<noteq> None \<and>
   pair_edges (snd (linkBlocks two_blocks ''t2'' ''a'' ''b'' ''double'')) ''a'' ''b'' =
     (Some ''double'', Some ''double'') \<and>
   pair_edges (snd (linkBlocks linked_blocks ''t3'' ''a'' ''b'' ''double'')) ''a'' ''b'' =
     pair_edges (snd (linkBlocks two_blocks ''t2'' ''a'' ''b'' ''double'')) ''a'' ''b'' \<and>
   edge_state (snd (linkBlocks (snd (linkBlocks two_blocks ''t2'' ''a'' ''b'' ''double''))
                      ''t3'' ''a'' ''b'' ''double'')) =
     edge_state (snd (linkBlocks two_blocks ''t2'' ''a'' ''b'' ''double''))"
proof -
  have t: "''double'' \<in> {''single'', ''reverse'', ''double''}" by simp
  have ne: "''a'' \<noteq> ''b''" by simp
  have ie: "intent_edges ''double'' = (Some ''double'', Some ''double'')"
    by (simp add: intent_edges_def)
  have other: "getBlock linked_blocks ''a'' \<noteq> None \<and> getBlock linked_blocks ''b'' \<noteq> None"
    by code_simp
  note th = linkBlocks_edges [OF two_blocks_present t, of "''t2''" "''t3''"]
  from th ne ie
  have p: "pair_edges (snd (linkBlocks two_blocks ''t2'' ''a'' ''b'' ''double'')) ''a'' ''b'' =
      (Some ''double'', Some ''double'')"
    by simp
  from th other
  have q: "pair_edges (snd (linkBlocks linked_blocks ''t3'' ''a'' ''b'' ''double'')) ''a'' ''b'' =
      pair_edges (snd (linkBlocks two_blocks ''t2'' ''a'' ''b'' ''double'')) ''a'' ''b''"
    by blast
  from th
  have r: "edge_state (snd (linkBlocks (snd (linkBlocks two_blocks ''t2'' ''a'' ''b'' ''double''))
                      ''t3'' ''a'' ''b'' ''double'')) =
      edge_state (snd (linkBlocks two_blocks ''t2'' ''a'' ''b'' ''double''))"
    by blast
  from p q r two_blocks_present show ?thesis by blast
qed

subsection \<open>Numbers\<close>


















lemma js_gt_Fin [simp]: "js_gt (Fin a) (Fin b) = (b < a)"
  by (simp add: js_gt_def)

subsection \<open>Graph store: placement and grid\<close>

lemma scan_rightmost_none:
  "\<forall>b \<in> set bs. \<not> js_gt (pos_x (block_position b)) maxX \<Longrightarrow>
     scan_rightmost bs (maxX, maxY) = (maxX, maxY)"
  by (induction bs) auto

lemma scan_rightmost_first:
  assumes "i < length bs" and "js_gt (pos_x (block_position (bs ! i))) maxX"
    and "\<forall>j < length bs. \<not> js_gt (pos_x (block_position (bs ! j))) (pos_x (block_position (bs ! i)))"
    and "\<forall>j < i. js_gt (pos_x (block_position (bs ! i))) (pos_x (block_position (bs ! j)))"
  shows "scan_rightmost bs (maxX, maxY) =
           (pos_x (block_position (bs ! i)), pos_y (block_position (bs ! i)))"
  using assms
proof (induction bs arbitrary: i maxX maxY)
  case Nil
  then show ?case by simp
next
  case (Cons b bs)
  show ?case
  proof (cases i)
    case 0
    have "\<forall>c \<in> set bs. \<not> js_gt (pos_x (block_position c)) (pos_x (block_position b))"
    proof
      fix c assume "c \<in> set bs"
      then obtain j where "j < length bs" and "bs ! j = c" by (auto simp: in_set_conv_nth)
      with Cons.prems(3) [rule_format, of "Suc j"] 0
      show "\<not> js_gt (pos_x (block_position c)) (pos_x (block_position b))"
        by simp
    qed
    with Cons.prems(2) 0 show ?thesis by (simp add: scan_rightmost_none)
  next
    case (Suc i')
    have lt: "js_gt (pos_x (block_position (bs ! i'))) (pos_x (block_position b))"
      using Cons.prems(4) [rule_format, of 0] Suc by simp
    have i': "i' < length bs" using Cons.prems(1) Suc by simp
    have all: "\<forall>j < length bs.
        \<not> js_gt (pos_x (block_position (bs ! j))) (pos_x (block_position (bs ! i')))"
      using Cons.prems(3) Suc by auto
    have before: "\<forall>j < i'. js_gt (pos_x (block_position (bs ! i'))) (pos_x (block_position (bs ! j)))"
      using Cons.prems(4) Suc by auto
    show ?thesis
    proof (cases "js_gt (pos_x (block_position b)) maxX")
      case True
      with Cons.IH [OF i' lt all before] Suc show ?thesis by simp
    next
      case False
      have "js_gt (pos_x (block_position (bs ! i'))) maxX" using Cons.prems(2) Suc by simp
      with Cons.IH [OF i' this all before] False Suc show ?thesis by simp
    qed
  qed
qed

text \<open>
  When no block has an \<open>x\<close> greater than 0 the scan keeps its initial pair: the new block
  goes to \<open>(0 + defaultSpacing, 50)\<close>, whatever the \<open>y\<close> of the blocks.
\<close>

lemma getAutoPosition_fallback:
  assumes "getAllBlocks s \<noteq> []"
    and "\<forall>b \<in> set (getAllBlocks s). \<not> js_gt (pos_x (block_position b)) (Fin 0)"
  shows "getAutoPosition s =
           \<lparr> pos_x = js_add (Fin 0) (defaultSpacing (engine_settings s)), pos_y = Fin 50 \<rparr>"
  using assms by (simp add: getAutoPosition_def scan_rightmost_none)

lemma created_position:
  "block_position (fst (createBlock s now newId c t None sz)) = getAutoPosition s"
  by (cases sz) (simp_all add: createBlock_def Let_def setPosition_def setSize_def touch_def)

lemma created_stored:
  "getBlock (snd (createBlock s now newId c t pos sz)) newId =
     Some (fst (createBlock s now newId c t pos sz))"
  by (simp add: createBlock_def Let_def getBlock_def emit_def update_conv')

text \<open>
  Claim C3, as amended. \<^verbatim>\<open>createBlock\<close> with the position omitted stores the block it
  returns; on the empty store the block is at \<open>(50, 50)\<close>; on a store where some block has
  a positive \<open>x\<close>, the block of greatest \<open>x\<close> that is scanned first (no block has a
  greater \<open>x\<close>, every block before it has a smaller one) gives the place: the new block
  is at its \<open>x\<close> plus \<^verbatim>\<open>defaultSpacing\<close> and at its \<open>y\<close>. The comparisons are the
  engine's \<^verbatim>\<open>>\<close> and the sum is its \<^verbatim>\<open>+\<close>, on doubles.
\<close>

theorem auto_placement:
  shows "getBlock (snd (createBlock s now newId c t None sz)) newId =
           Some (fst (createBlock s now newId c t None sz)) \<and>
         (getAllBlocks s = [] \<longrightarrow>
            block_position (fst (createBlock s now newId c t None sz)) =
              \<lparr> pos_x = Fin 50, pos_y = Fin 50 \<rparr>) \<and>
         (\<forall>i < length (getAllBlocks s).
            js_gt (pos_x (block_position (getAllBlocks s ! i))) (Fin 0) \<and>
            (\<forall>j < length (getAllBlocks s).
               \<not> js_gt (pos_x (block_position (getAllBlocks s ! j)))
                    (pos_x (block_position (getAllBlocks s ! i)))) \<and>
            (\<forall>j < i.
               js_gt (pos_x (block_position (getAllBlocks s ! i)))
                 (pos_x (block_position (getAllBlocks s ! j)))) \<longrightarrow>
            block_position (fst (createBlock s now newId c t None sz)) =
              \<lparr> pos_x = js_add (pos_x (block_position (getAllBlocks s ! i)))
                         (defaultSpacing (engine_settings s)),
                pos_y = pos_y (block_position (getAllBlocks s ! i)) \<rparr>)"
proof -
  have c2: "block_position (fst (createBlock s now newId c t None sz)) =
              \<lparr> pos_x = js_add (pos_x (block_position (getAllBlocks s ! i)))
                         (defaultSpacing (engine_settings s)),
                pos_y = pos_y (block_position (getAllBlocks s ! i)) \<rparr>"
    if "i < length (getAllBlocks s)"
      and "js_gt (pos_x (block_position (getAllBlocks s ! i))) (Fin 0)"
      and "\<forall>j < length (getAllBlocks s).
               \<not> js_gt (pos_x (block_position (getAllBlocks s ! j)))
                    (pos_x (block_position (getAllBlocks s ! i)))"
      and "\<forall>j < i.
               js_gt (pos_x (block_position (getAllBlocks s ! i)))
                 (pos_x (block_position (getAllBlocks s ! j)))"
    for i
  proof -
    have "getAllBlocks s \<noteq> []" using that(1) by auto
    then show ?thesis
      by (simp add: created_position getAutoPosition_def scan_rightmost_first [OF that])
  qed
  have c1: "getAllBlocks s = [] \<longrightarrow>
            block_position (fst (createBlock s now newId c t None sz)) =
              \<lparr> pos_x = Fin 50, pos_y = Fin 50 \<rparr>"
    by (simp add: created_position getAutoPosition_def)
  from c1 c2 created_stored show ?thesis by blast
qed

theorem auto_placement_witness:
  "block_position (fst (createBlock new_BlockEngine ''t0'' ''a'' ''A'' ''default'' None None)) =
     \<lparr> pos_x = Fin 50, pos_y = Fin 50 \<rparr> \<and>
   position_of_block two_blocks ''b'' = Some \<lparr> pos_x = Fin 350, pos_y = Fin 50 \<rparr> \<and>
   block_position (fst (createBlock tied_blocks ''t2'' ''c'' ''C'' ''default'' None None)) =
     \<lparr> pos_x = Fin 400, pos_y = Fin 10 \<rparr>"
proof -
  have e: "getAllBlocks new_BlockEngine = []"
    by (simp add: getAllBlocks_def new_BlockEngine_def)
  have first: "block_position (fst (createBlock new_BlockEngine ''t0'' ''a'' ''A'' ''default'' None None)) =
      \<lparr> pos_x = Fin 50, pos_y = Fin 50 \<rparr>"
    using auto_placement [of new_BlockEngine "''t0''" "''a''" "''A''" "''default''" None] e
    by blast
  have second: "position_of_block two_blocks ''b'' = Some \<lparr> pos_x = Fin 350, pos_y = Fin 50 \<rparr>"
    by code_simp
  have n: "length (getAllBlocks tied_blocks) = 2"
    and x0: "pos_x (block_position (getAllBlocks tied_blocks ! 0)) = Fin 100"
    and x1: "pos_x (block_position (getAllBlocks tied_blocks ! 1)) = Fin 100"
    and y0: "pos_y (block_position (getAllBlocks tied_blocks ! 0)) = Fin 10"
    and sp: "defaultSpacing (engine_settings tied_blocks) = Fin 300"
    by code_simp+
  have sum: "js_add (Fin 100) (Fin 300) = Fin 400" by code_simp
  have le: "\<forall>j < length (getAllBlocks tied_blocks).
      \<not> js_gt (pos_x (block_position (getAllBlocks tied_blocks ! j)))
           (pos_x (block_position (getAllBlocks tied_blocks ! 0)))"
    unfolding n x0 using x0 x1 by (auto simp: less_Suc_eq numeral_2_eq_2)
  have i: "0 < length (getAllBlocks tied_blocks)" by (simp add: n)
  have pos: "js_gt (pos_x (block_position (getAllBlocks tied_blocks ! 0))) (Fin 0)"
    by (simp add: x0)
  note ap = auto_placement [of tied_blocks "''t2''" "''c''" "''C''" "''default''" None,
      THEN conjunct2, THEN conjunct2, rule_format, of 0]
  have third: "block_position (fst (createBlock tied_blocks ''t2'' ''c'' ''C'' ''default'' None None)) =
      \<lparr> pos_x = Fin 400, pos_y = Fin 10 \<rparr>"
    using ap i pos le by (simp add: x0 y0 sp sum)
  from first second third show ?thesis by blast
qed

text \<open>
  The claim as stated fails on two stores. Of two blocks of equal greatest \<open>x\<close> the first
  scanned gives the \<open>y\<close>, not the last; and a block with \<open>x = 0\<close> never replaces the
  scan's initial \<open>(0, 50)\<close>, so its \<open>y\<close> is not used.
\<close>

theorem auto_placement_counterexample:
  "block_position (fst (createBlock tied_blocks ''t2'' ''c'' ''C'' ''default'' None None)) =
     \<lparr> pos_x = Fin 400, pos_y = Fin 10 \<rparr> \<and>
   spec_autoPosition tied_blocks = \<lparr> pos_x = Fin 400, pos_y = Fin 20 \<rparr> \<and>
   block_position (fst (createBlock border_block ''t1'' ''c'' ''C'' ''default'' None None)) =
     \<lparr> pos_x = Fin 300, pos_y = Fin 50 \<rparr> \<and>
   spec_autoPosition border_block = \<lparr> pos_x = Fin 300, pos_y = Fin 100 \<rparr>"
  by code_simp





subsection \<open>Graph store: no dangling entries\<close>

lemma no_dangling_iff:
  "no_dangling s \<longleftrightarrow>
     (\<forall>i b t m. (i, b) \<in> set (blocks s) \<longrightarrow> (t, m) \<in> set (links b) \<longrightarrow> t \<in> fst ` set (blocks s))"
  by (fastforce simp: no_dangling_def list_all_iff getBlock_def map_of_eq_None_iff)

lemma no_danglingD:
  "no_dangling s \<Longrightarrow> (i, b) \<in> set (blocks s) \<Longrightarrow> (t, m) \<in> set (links b) \<Longrightarrow>
   t \<in> fst ` set (blocks s)"
  unfolding no_dangling_iff by blast

lemma keys_on_block [simp]: "fst ` set (blocks (on_block k f s)) = fst ` set (blocks s)"
  by (simp add: on_block_def dom_map_entry)

lemma in_set_map_entryD:
  "(i, b) \<in> set (AList.map_entry k f xs) \<Longrightarrow>
   (i, b) \<in> set xs \<or> (\<exists>b0. (i, b0) \<in> set xs \<and> b = f b0)"
  by (induction xs) (auto split: if_splits)

lemma in_set_updateD:
  "(i, x) \<in> set (AList.update k v xs) \<Longrightarrow> (i, x) \<in> set xs \<or> (i = k \<and> x = v)"
  by (induction xs) (auto split: if_splits)

lemma no_dangling_on_block:
  assumes nd: "no_dangling s"
    and f: "\<And>b t m. (t, m) \<in> set (links (f b)) \<Longrightarrow>
              (\<exists>m0. (t, m0) \<in> set (links b)) \<or> t \<in> fst ` set (blocks s)"
  shows "no_dangling (on_block k f s)"
  unfolding no_dangling_iff
proof (intro allI impI)
  fix i b t m
  assume mem: "(i, b) \<in> set (blocks (on_block k f s))" and t: "(t, m) \<in> set (links b)"
  from mem have "(i, b) \<in> set (blocks s) \<or> (\<exists>b0. (i, b0) \<in> set (blocks s) \<and> b = f b0)"
    by (auto simp: on_block_def dest: in_set_map_entryD)
  then have "t \<in> fst ` set (blocks s)"
  proof
    assume "(i, b) \<in> set (blocks s)"
    then show ?thesis using nd t by (blast dest: no_danglingD)
  next
    assume "\<exists>b0. (i, b0) \<in> set (blocks s) \<and> b = f b0"
    then obtain b0 where b0: "(i, b0) \<in> set (blocks s)" and b: "b = f b0" by blast
    from t b f [of t m b0] have "(\<exists>m0. (t, m0) \<in> set (links b0)) \<or> t \<in> fst ` set (blocks s)"
      by simp
    then show ?thesis using no_danglingD [OF nd b0] by blast
  qed
  then show "t \<in> fst ` set (blocks (on_block k f s))" by simp
qed

lemma no_dangling_emit [simp]: "no_dangling (emit e s) = no_dangling s"
  by (simp add: no_dangling_def emit_def getBlock_def)

lemma no_dangling_removeLink: "no_dangling s \<Longrightarrow> no_dangling (on_block k (removeLink now j) s)"
  by (rule no_dangling_on_block) (auto simp: removeLink_def touch_def dest: in_set_deleteD)

lemma no_dangling_addLink:
  assumes "no_dangling s" and "getBlock s j \<noteq> None"
  shows "no_dangling (on_block k (addLink now j t) s)"
proof (rule no_dangling_on_block [OF assms(1)])
  fix b t' m
  assume "(t', m) \<in> set (links (addLink now j t b))"
  then have "(t', m) \<in> set (links b) \<or> t' = j"
    by (auto simp: addLink_def touch_def dest: in_set_updateD)
  moreover have "j \<in> fst ` set (blocks s)"
    using assms(2) by (simp add: getBlock_def map_of_eq_None_iff)
  ultimately show "(\<exists>m0. (t', m0) \<in> set (links b)) \<or> t' \<in> fst ` set (blocks s)" by blast
qed

lemma getBlock_on_block_None [simp]: "getBlock (on_block k f s) j = None \<longleftrightarrow> getBlock s j = None"
  by (simp add: getBlock_on_block)

lemma no_dangling_unlinkBlocks: "no_dangling s \<Longrightarrow> no_dangling (snd (unlinkBlocks s now a b))"
  by (simp add: unlinkBlocks_def Let_def no_dangling_removeLink)

lemma no_dangling_linkBlocks:
  assumes "no_dangling s"
  shows "no_dangling (snd (linkBlocks s now a b t))"
proof (cases "getBlock s a = None \<or> getBlock s b = None")
  case True
  with assms show ?thesis by (simp add: linkBlocks_def)
next
  case False
  let ?s2 = "on_block b (removeLink now a) (on_block a (removeLink now b) s)"
  have nd2: "no_dangling ?s2" by (intro no_dangling_removeLink assms)
  have pa: "getBlock ?s2 a \<noteq> None" and pb: "getBlock ?s2 b \<noteq> None"
    using False by simp_all
  have fwd: "no_dangling (on_block a (addLink now b ty) ?s2)" for ty
    by (rule no_dangling_addLink [OF nd2 pb])
  have bwd: "no_dangling (on_block b (addLink now a ty) ?s2)" for ty
    by (rule no_dangling_addLink [OF nd2 pa])
  have both: "no_dangling (on_block b (addLink now a ty) (on_block a (addLink now b ty) ?s2))" for ty
    using pa by (intro no_dangling_addLink fwd) simp
  have "no_dangling (install_links now a b t ?s2)"
    unfolding install_links_def using nd2 fwd bwd both by simp
  with False show ?thesis by (auto simp: linkBlocks_def Let_def)
qed

lemma links_created [simp]: "links (fst (createBlock s now newId c t pos sz)) = []"
  by (cases pos; cases sz)
     (simp_all add: createBlock_def Let_def setPosition_def setSize_def touch_def new_Block_def)

lemma blocks_createBlock:
  "blocks (snd (createBlock s now newId c t pos sz)) =
     AList.update newId (fst (createBlock s now newId c t pos sz)) (blocks s)"
  by (simp add: createBlock_def Let_def emit_def)

lemma no_dangling_createBlock:
  assumes "no_dangling s"
  shows "no_dangling (snd (createBlock s now newId c t pos sz))"
  unfolding no_dangling_iff blocks_createBlock dom_update
proof (intro allI impI)
  fix i x t' m
  assume mem: "(i, x) \<in> set (AList.update newId (fst (createBlock s now newId c t pos sz)) (blocks s))"
    and t': "(t', m) \<in> set (links x)"
  from in_set_updateD [OF mem] t' have "(i, x) \<in> set (blocks s)" by auto
  from no_danglingD [OF assms this t'] show "t' \<in> {newId} \<union> fst ` set (blocks s)" by simp
qed

lemma purged_links:
  "(t, m) \<in> set (links (purge_link now k b)) \<longleftrightarrow> (t, m) \<in> set (links b) \<and> t \<noteq> k"
  by (auto simp: purge_link_def removeLink_def touch_def hasLink_def map_of_eq_None_iff
        AList.delete_eq image_iff)

lemma blocks_deleteBlock:
  "getBlock s k \<noteq> None \<Longrightarrow>
   blocks (snd (deleteBlock s now k)) =
     AList.delete k (map (\<lambda>(i, b). (i, purge_link now k b)) (blocks s))"
  by (auto simp: deleteBlock_def emit_def)

lemma in_blocks_deleteBlock:
  assumes "getBlock s k \<noteq> None"
  shows "(i, b) \<in> set (blocks (snd (deleteBlock s now k))) \<longleftrightarrow>
           i \<noteq> k \<and> (\<exists>b0. (i, b0) \<in> set (blocks s) \<and> b = purge_link now k b0)"
  unfolding blocks_deleteBlock [OF assms] by (auto simp: AList.delete_eq)

lemma deleteBlock_purges:
  assumes "getBlock s k \<noteq> None" and "(i, b) \<in> set (blocks (snd (deleteBlock s now k)))"
  shows "\<not> hasLink b k \<and> i \<noteq> k"
proof -
  from assms obtain b0 where "i \<noteq> k" and b: "b = purge_link now k b0"
    by (auto simp: in_blocks_deleteBlock)
  have "k \<notin> fst ` set (links b)" unfolding b using purged_links [of k _ now k b0] by auto
  then show ?thesis using \<open>i \<noteq> k\<close> by (simp add: hasLink_def map_of_eq_None_iff)
qed

lemma no_dangling_deleteBlock:
  assumes "no_dangling s"
  shows "no_dangling (snd (deleteBlock s now k))"
proof (cases "getBlock s k = None")
  case True
  with assms show ?thesis by (simp add: deleteBlock_def)
next
  case False
  show ?thesis
    unfolding no_dangling_iff
  proof (intro allI impI)
    fix i b t m
    assume mem: "(i, b) \<in> set (blocks (snd (deleteBlock s now k)))" and t: "(t, m) \<in> set (links b)"
    from mem obtain b0 where b0: "(i, b0) \<in> set (blocks s)" and b: "b = purge_link now k b0"
      by (auto simp: in_blocks_deleteBlock [OF False])
    from t b have t0: "(t, m) \<in> set (links b0)" and "t \<noteq> k" by (simp_all add: purged_links)
    from no_danglingD [OF assms b0 t0] obtain x where "(t, x) \<in> set (blocks s)" by auto
    with \<open>t \<noteq> k\<close> have "(t, purge_link now k x) \<in> set (blocks (snd (deleteBlock s now k)))"
      by (auto simp: in_blocks_deleteBlock [OF False])
    then show "t \<in> fst ` set (blocks (snd (deleteBlock s now k)))" by force
  qed
qed

text \<open>
  Claim C2, as amended. On a store with no dangling entry, \<^verbatim>\<open>createBlock\<close>,
  \<^verbatim>\<open>linkBlocks\<close>, \<^verbatim>\<open>updateLinkType\<close>, \<^verbatim>\<open>unlinkBlocks\<close> and \<^verbatim>\<open>deleteBlock\<close> leave no
  dangling entry. And on any store, with dangling entries or without, when
  \<^verbatim>\<open>deleteBlock(k)\<close> returns true \<open>k\<close> is no longer a block and no remaining block's
  table has an entry for \<open>k\<close>. \<^verbatim>\<open>importFromJSON\<close> is not among the operations: it
  stores the link entries of the document as they are.
\<close>

theorem no_dangling_preserved:
  shows "(no_dangling s \<longrightarrow>
            no_dangling (snd (createBlock s now newId c ty pos sz)) \<and>
            no_dangling (snd (linkBlocks s now a b t)) \<and>
            no_dangling (snd (updateLinkType s now a b t)) \<and>
            no_dangling (snd (unlinkBlocks s now a b)) \<and>
            no_dangling (snd (deleteBlock s now k))) \<and>
         (fst (deleteBlock s now k) \<longrightarrow>
            getBlock (snd (deleteBlock s now k)) k = None \<and>
            (\<forall>(i, x) \<in> set (blocks (snd (deleteBlock s now k))). \<not> hasLink x k))"
proof -
  have del: "getBlock (snd (deleteBlock s now k)) k = None \<and>
            (\<forall>(i, x) \<in> set (blocks (snd (deleteBlock s now k))). \<not> hasLink x k)"
    if "fst (deleteBlock s now k)"
  proof -
    from that have pres: "getBlock s k \<noteq> None"
      by (auto simp: deleteBlock_def split: option.splits)
    have "getBlock (snd (deleteBlock s now k)) k = None"
      unfolding getBlock_def blocks_deleteBlock [OF pres] by (simp add: delete_conv')
    with deleteBlock_purges [OF pres] show ?thesis by blast
  qed
  have pres: "no_dangling (snd (createBlock s now newId c ty pos sz)) \<and>
            no_dangling (snd (linkBlocks s now a b t)) \<and>
            no_dangling (snd (updateLinkType s now a b t)) \<and>
            no_dangling (snd (unlinkBlocks s now a b)) \<and>
            no_dangling (snd (deleteBlock s now k))"
    if "no_dangling s"
    using that
    by (simp add: no_dangling_createBlock no_dangling_linkBlocks updateLinkType_def
          no_dangling_unlinkBlocks no_dangling_deleteBlock)
  from del pres show ?thesis by blast
qed

theorem no_dangling_preserved_witness:
  "no_dangling two_blocks \<and> no_dangling linked_blocks \<and>
   fst (deleteBlock linked_blocks ''t3'' ''b'') \<and>
   no_dangling (snd (deleteBlock linked_blocks ''t3'' ''b'')) \<and>
   getBlock (snd (deleteBlock linked_blocks ''t3'' ''b'')) ''b'' = None \<and>
   list_all (\<lambda>(i, x). \<not> hasLink x ''b'') (blocks (snd (deleteBlock linked_blocks ''t3'' ''b''))) \<and>
   \<not> no_dangling dangling_blocks \<and> fst (deleteBlock dangling_blocks ''t3'' ''b'') \<and>
   getBlock (snd (deleteBlock dangling_blocks ''t3'' ''b'')) ''b'' = None \<and>
   list_all (\<lambda>(i, x). \<not> hasLink x ''b'') (blocks (snd (deleteBlock dangling_blocks ''t3'' ''b'')))"
proof -
  have nd: "no_dangling two_blocks" by code_simp
  from no_dangling_preserved [of two_blocks "''t2''" "''c''" "''C''" "''default''" None None
      "''a''" "''b''" "''double''" "''b''"] nd
  have l: "no_dangling linked_blocks" unfolding linked_blocks_def by blast
  have d: "fst (deleteBlock linked_blocks ''t3'' ''b'')" by code_simp
  note th = no_dangling_preserved [of linked_blocks "''t3''" "''c''" "''C''" "''default''" None None
      "''a''" "''b''" "''double''" "''b''"]
  from th l have n: "no_dangling (snd (deleteBlock linked_blocks ''t3'' ''b''))" by blast
  from th d have "getBlock (snd (deleteBlock linked_blocks ''t3'' ''b'')) ''b'' = None"
    and "\<forall>(i, x) \<in> set (blocks (snd (deleteBlock linked_blocks ''t3'' ''b''))). \<not> hasLink x ''b''"
    by blast+
  then have p1: "getBlock (snd (deleteBlock linked_blocks ''t3'' ''b'')) ''b'' = None"
    and p2: "list_all (\<lambda>(i, x). \<not> hasLink x ''b'')
               (blocks (snd (deleteBlock linked_blocks ''t3'' ''b'')))"
    by (simp_all add: list_all_iff)
  have g: "\<not> no_dangling dangling_blocks" and gd: "fst (deleteBlock dangling_blocks ''t3'' ''b'')"
    by code_simp+
  note th' = no_dangling_preserved [of dangling_blocks "''t3''" "''c''" "''C''" "''default''" None None
      "''a''" "''b''" "''double''" "''b''"]
  from th' gd have "getBlock (snd (deleteBlock dangling_blocks ''t3'' ''b'')) ''b'' = None"
    and "\<forall>(i, x) \<in> set (blocks (snd (deleteBlock dangling_blocks ''t3'' ''b''))). \<not> hasLink x ''b''"
    by blast+
  then have q1: "getBlock (snd (deleteBlock dangling_blocks ''t3'' ''b'')) ''b'' = None"
    and q2: "list_all (\<lambda>(i, x). \<not> hasLink x ''b'')
               (blocks (snd (deleteBlock dangling_blocks ''t3'' ''b'')))"
    by (simp_all add: list_all_iff)
  from nd l d n p1 p2 g gd q1 q2 show ?thesis by blast
qed

text \<open>
  The claim as stated fails for \<^verbatim>\<open>importFromJSON\<close>: the import of a document whose only
  block links to an id the document does not have returns true and leaves that entry
  dangling.
\<close>

theorem no_dangling_counterexample:
  "(case importFromJSON new_BlockEngine ''t1'' (Parsed ghost_document) of
      Returns ok s \<Rightarrow> ok \<and> getBlock s ''a'' \<noteq> None \<and> getBlock s ''ghost'' = None \<and>
                      \<not> no_dangling s
    | _ \<Rightarrow> False)"
  by code_simp

subsection \<open>Stores the operations produce\<close>

lemma wf_links_update:
  "wf_links ls \<Longrightarrow> link_type m \<noteq> [] \<Longrightarrow> wf_links (AList.update k m ls)"
  by (auto simp: wf_links_def distinct_update list_all_iff dest!: in_set_updateD)

lemma wf_links_delete: "wf_links ls \<Longrightarrow> wf_links (AList.delete k ls)"
  by (auto simp: wf_links_def distinct_delete list_all_iff dest!: in_set_deleteD)

lemma wf_blocks_map_entry:
  assumes "wf_blocks bs"
    and "\<And>b. block_id (f b) = block_id b"
    and "\<And>b. wf_links (links b) \<Longrightarrow> wf_links (links (f b))"
  shows "wf_blocks (AList.map_entry k f bs)"
  using assms
  by (auto simp: wf_blocks_def distinct_map_entry list_all_iff dest!: in_set_map_entryD)

lemma wf_store_on_block:
  assumes "wf_store s"
    and "\<And>b. block_id (f b) = block_id b"
    and "\<And>b. wf_links (links b) \<Longrightarrow> wf_links (links (f b))"
  shows "wf_store (on_block k f s)"
  using assms by (simp add: wf_store_def on_block_def wf_blocks_map_entry)

lemma wf_store_emit [simp]: "wf_store (emit e s) = wf_store s"
  by (simp add: wf_store_def emit_def)

lemma wf_store_removeLink: "wf_store s \<Longrightarrow> wf_store (on_block k (removeLink now j) s)"
  by (rule wf_store_on_block) (simp_all add: removeLink_def touch_def wf_links_delete)

lemma wf_store_addLink:
  "wf_store s \<Longrightarrow> t \<noteq> [] \<Longrightarrow> wf_store (on_block k (addLink now j t) s)"
  by (rule wf_store_on_block) (simp_all add: addLink_def touch_def wf_links_update)

lemma wf_store_linkBlocks: "wf_store s \<Longrightarrow> wf_store (snd (linkBlocks s now a b t))"
  by (simp add: linkBlocks_def Let_def install_links_def wf_store_removeLink wf_store_addLink)

lemma wf_store_unlinkBlocks: "wf_store s \<Longrightarrow> wf_store (snd (unlinkBlocks s now a b))"
  by (simp add: unlinkBlocks_def Let_def wf_store_removeLink)

lemma wf_store_setBlockPosition:
  "wf_store s \<Longrightarrow> wf_store (snd (setBlockPosition s now k x y snapToGrid))"
  by (auto simp: setBlockPosition_def Let_def setPosition_def touch_def split: option.splits
        intro!: wf_store_on_block)

lemma wf_store_setBlockSize: "wf_store s \<Longrightarrow> wf_store (snd (setBlockSize s now k w h))"
  by (auto simp: setBlockSize_def Let_def setSize_def touch_def split: option.splits
        intro!: wf_store_on_block)

lemma wf_store_setBlockContent: "wf_store s \<Longrightarrow> wf_store (snd (setBlockContent s now k c))"
  by (auto simp: setBlockContent_def Let_def setContent_def touch_def split: option.splits
        intro!: wf_store_on_block)

lemma wf_blocks_update:
  "wf_blocks bs \<Longrightarrow> block_id b = k \<Longrightarrow> wf_links (links b) \<Longrightarrow> wf_blocks (AList.update k b bs)"
  by (auto simp: wf_blocks_def distinct_update list_all_iff dest!: in_set_updateD)

lemma id_created [simp]: "block_id (fst (createBlock s now newId c t pos sz)) = newId"
  by (cases pos; cases sz)
     (simp_all add: createBlock_def Let_def setPosition_def setSize_def touch_def new_Block_def)

lemma wf_store_createBlock:
  "wf_store s \<Longrightarrow> wf_store (snd (createBlock s now newId c t pos sz))"
  by (simp add: wf_store_def blocks_createBlock wf_blocks_update wf_links_def)

lemma wf_links_purge: "wf_links (links b) \<Longrightarrow> wf_links (links (purge_link now k b))"
  by (simp add: purge_link_def removeLink_def touch_def wf_links_delete)

lemma block_id_purge [simp]: "block_id (purge_link now k b) = block_id b"
  by (simp add: purge_link_def removeLink_def touch_def)

lemma wf_store_deleteBlock:
  assumes "wf_store s"
  shows "wf_store (snd (deleteBlock s now k))"
proof (cases "getBlock s k = None")
  case True
  with assms show ?thesis by (simp add: deleteBlock_def)
next
  case False
  have keys: "map fst (map (\<lambda>(i, b). (i, purge_link now k b)) (blocks s)) = map fst (blocks s)"
    by (induction "blocks s") (auto simp: case_prod_unfold)
  have "distinct (map fst (map (\<lambda>(i, b). (i, purge_link now k b)) (blocks s)))"
    unfolding keys using assms by (simp add: wf_store_def wf_blocks_def)
  then have "distinct (map fst (blocks (snd (deleteBlock s now k))))"
    unfolding blocks_deleteBlock [OF False] by (rule distinct_delete)
  moreover have "block_id b = i \<and> wf_links (links b)"
    if "(i, b) \<in> set (blocks (snd (deleteBlock s now k)))" for i b
    using that assms
    by (auto simp: in_blocks_deleteBlock [OF False] wf_store_def wf_blocks_def list_all_iff
          wf_links_purge)
  ultimately show ?thesis by (auto simp: wf_store_def wf_blocks_def list_all_iff)
qed

lemma link_type_of_nonempty: "link_type_of v = Some t \<Longrightarrow> t \<noteq> []"
  by (auto simp: link_type_of_def split: option.splits json.splits if_splits)

lemma wf_links_import_link:
  "import_link now l ls = Some r \<Longrightarrow> wf_links ls \<Longrightarrow> wf_links r"
  by (auto simp: import_link_def split: json.splits option.splits
        intro!: wf_links_update dest: link_type_of_nonempty)

lemma import_links_None: "import_links now xs None \<noteq> Ok r"
proof (induction xs)
  case Nil
  show ?case by simp
next
  case (Cons a xs)
  then show ?case by (cases a) simp_all
qed

lemma wf_links_import_links:
  "import_links now ls (Some acc) = Ok r \<Longrightarrow> wf_links acc \<Longrightarrow> wf_links r"
proof (induction ls arbitrary: acc)
  case Nil
  then show ?case by simp
next
  case (Cons l ls)
  show ?case
  proof (cases "import_link now l acc")
    case None
    with Cons.prems import_links_None [of now ls r] show ?thesis by (cases l) auto
  next
    case (Some acc')
    with Cons.prems have "import_links now ls (Some acc') = Ok r" by (cases l) auto
    from Cons.IH [OF this] wf_links_import_link [OF Some Cons.prems(2)] show ?thesis .
  qed
qed

lemma wf_import_block:
  assumes "import_block now r = Ok b"
  shows "wf_links (links b)"
proof -
  have e: "wf_links []" by (simp add: wf_links_def)
  from assms show ?thesis
    by (auto simp: import_block_def new_Block_def e
          split: json.splits step.splits option.splits dest: wf_links_import_links [OF _ e])
qed

lemma wf_import_blocks:
  "import_blocks now ds acc = Some (ok, bs) \<Longrightarrow> wf_blocks acc \<Longrightarrow> wf_blocks bs"
proof (induction ds arbitrary: acc)
  case Nil
  then show ?case by simp
next
  case (Cons d ds)
  show ?case
  proof (cases "import_block now d")
    case (Ok x)
    with Cons.prems(1) have "import_blocks now ds (AList.update (block_id x) x acc) = Some (ok, bs)"
      by simp
    from Cons.IH [OF this] wf_blocks_update [OF Cons.prems(2) refl wf_import_block [OF Ok]]
    show ?thesis .
  next
    case Throws
    with Cons.prems show ?thesis by simp
  next
    case Untyped
    with Cons.prems show ?thesis by simp
  qed
qed

lemma import_legacy_Returns [simp]: "import_legacy s now ds \<noteq> Returns ok s'"
  by (simp add: import_legacy_def split: option.splits bool.splits)

lemma wf_store_importFromJSON:
  assumes "importFromJSON s now doc = Returns ok s'" and "wf_store s"
  shows "wf_store s'"
proof (cases doc)
  case SyntaxError
  with assms show ?thesis by (simp add: importFromJSON_def)
next
  case (Parsed d)
  have e: "wf_blocks []" by (simp add: wf_blocks_def)
  from assms(1) Parsed
  have "blocks s' = [] \<or> (\<exists>ds r. import_blocks now ds [] = Some (r, blocks s'))"
    by (auto simp: importFromJSON_def Let_def emit_def
          split: json.splits option.splits if_splits bool.splits)
  then show ?thesis using e wf_import_blocks [OF _ e] by (auto simp: wf_store_def)
qed

lemma reachable_wf_store: "reachable s \<Longrightarrow> wf_store s"
proof (induction rule: reachable.induct)
  case init
  show ?case by (simp add: wf_store_def wf_blocks_def new_BlockEngine_def)
qed (simp_all add: wf_store_createBlock wf_store_setBlockPosition wf_store_setBlockSize
      wf_store_setBlockContent wf_store_linkBlocks wf_store_unlinkBlocks wf_store_deleteBlock
      wf_store_importFromJSON)

subsection \<open>Serializer\<close>

lemma update_fresh: "k \<notin> fst ` set xs \<Longrightarrow> AList.update k v xs = xs @ [(k, v)]"
  by (induction xs) auto

lemma import_link_toJSON:
  assumes "link_type m \<noteq> []"
  shows "import_link now (link_toJSON (i, m)) ls = Some (AList.update i m ls)"
proof (cases m)
  case (fields t c)
  with assms show ?thesis
    by (cases c)
       (simp_all add: import_link_def link_toJSON_def link_type_of_def link_createdAt_of_def)
qed

lemma import_links_toJSON:
  assumes "distinct (map fst (acc @ ls))" and "list_all (\<lambda>(t, m). link_type m \<noteq> []) ls"
  shows "import_links now (map link_toJSON ls) (Some acc) = Ok (acc @ ls)"
  using assms
proof (induction ls arbitrary: acc)
  case Nil
  then show ?case by simp
next
  case (Cons e ls)
  obtain i m where e: "e = (i, m)" by (cases e)
  from Cons.prems e have ty: "link_type m \<noteq> []" and fresh: "i \<notin> fst ` set acc"
    and d: "distinct (map fst ((acc @ [(i, m)]) @ ls))" and rest: "list_all (\<lambda>(t, m). link_type m \<noteq> []) ls"
    by auto
  have obj: "\<exists>fs. link_toJSON (i, m) = JObj fs" by (simp add: link_toJSON_def)
  then obtain fs where fs: "link_toJSON (i, m) = JObj fs" ..
  have "import_links now (map link_toJSON (e # ls)) (Some acc) =
          import_links now (map link_toJSON ls) (import_link now (link_toJSON (i, m)) acc)"
    by (simp add: e fs)
  also have "\<dots> = import_links now (map link_toJSON ls) (Some (acc @ [(i, m)]))"
    by (simp add: import_link_toJSON [OF ty] update_fresh [OF fresh])
  also have "\<dots> = Ok ((acc @ [(i, m)]) @ ls)" by (rule Cons.IH [OF d rest])
  finally show ?case by (simp add: e)
qed

lemma number_of_toJSON: "number_of (Some (number_toJSON x)) = Some (json_number x)"
  by (cases x) (simp_all add: number_of_def number_toJSON_def json_number_def)

lemma json_number_finite: "finite_number x \<Longrightarrow> json_number x = x"
  by (cases x) (simp_all add: finite_number_def json_number_def)

lemma position_of_toJSON:
  "position_of (Some (position_toJSON p)) =
     Some \<lparr> pos_x = json_number (pos_x p), pos_y = json_number (pos_y p) \<rparr>"
  by (simp add: position_of_def position_toJSON_def property_def number_of_toJSON)

lemma size_of_toJSON:
  "size_of (Some (size_toJSON z)) =
     Some \<lparr> width = json_number (width z), height = json_number (height z) \<rparr>"
  by (simp add: size_of_def size_toJSON_def property_def number_of_toJSON)

lemma import_block_toJSON:
  assumes "wf_links (links b)"
  shows "import_block now (toJSON b) = Ok (reread_block b)"
proof -
  have l: "import_links now (map link_toJSON (links b)) (Some []) = Ok (links b)"
    using import_links_toJSON [of "[]" "links b" now] assms by (simp add: wf_links_def)
  have p: "property (toJSON b) ''position'' = Some (position_toJSON (block_position b))"
    and z: "property (toJSON b) ''size'' = Some (size_toJSON (size_of_block b))"
    by (simp_all add: toJSON_def property_def)
  show ?thesis
    unfolding import_block_def p z position_of_toJSON size_of_toJSON
    by (simp add: toJSON_def property_def l string_param_def metadata_of_def
          metadata_toJSON_def new_Block_def reread_block_def)
qed

lemma reread_block_finite: "finite_block b \<Longrightarrow> reread_block b = b"
  by (simp add: finite_block_def reread_block_def json_number_finite)

lemma reread_settings_finite:
  "finite_number (gridSize st) \<Longrightarrow> finite_number (defaultSpacing st) \<Longrightarrow>
   finite_number (minBlockWidth st) \<Longrightarrow> finite_number (minBlockHeight st) \<Longrightarrow>
     reread_settings st = st"
  by (simp add: reread_settings_def json_number_finite)

lemma block_id_reread [simp]: "block_id (reread_block b) = block_id b"
  by (simp add: reread_block_def)

lemma import_blocks_toJSON:
  assumes "distinct (map fst (acc @ bs))"
    and "list_all (\<lambda>(k, b). block_id b = k \<and> wf_links (links b)) bs"
  shows "import_blocks now (map toJSON (map snd bs)) acc =
           Some (True, acc @ map (\<lambda>(k, b). (k, reread_block b)) bs)"
  using assms
proof (induction bs arbitrary: acc)
  case Nil
  then show ?case by simp
next
  case (Cons e bs)
  obtain k b where e: "e = (k, b)" by (cases e)
  from Cons.prems e have idk: "block_id b = k" and wl: "wf_links (links b)"
    and fresh: "k \<notin> fst ` set acc"
    and d: "distinct (map fst ((acc @ [(k, reread_block b)]) @ bs))"
    and rest: "list_all (\<lambda>(k, b). block_id b = k \<and> wf_links (links b)) bs"
    by auto
  have "import_blocks now (map toJSON (map snd (e # bs))) acc =
          import_blocks now (map toJSON (map snd bs)) (acc @ [(k, reread_block b)])"
    by (simp add: e import_block_toJSON [OF wl] idk update_fresh [OF fresh])
  also have "\<dots> = Some (True, (acc @ [(k, reread_block b)]) @ map (\<lambda>(k, b). (k, reread_block b)) bs)"
    by (rule Cons.IH [OF d rest])
  finally show ?case by (simp add: e)
qed

lemma assign_settings_toJSON:
  "assign_settings st0 (settings_toJSON st) = Some (reread_settings st)"
proof -
  have "property (settings_toJSON st) ''gridSize'' = Some (number_toJSON (gridSize st))"
    and "property (settings_toJSON st) ''defaultSpacing'' = Some (number_toJSON (defaultSpacing st))"
    and "property (settings_toJSON st) ''minBlockWidth'' = Some (number_toJSON (minBlockWidth st))"
    and "property (settings_toJSON st) ''minBlockHeight'' = Some (number_toJSON (minBlockHeight st))"
    by (simp_all add: settings_toJSON_def property_def)
  then show ?thesis
    by (simp add: assign_settings_def number_setting_def number_of_toJSON reread_settings_def)
qed

lemma reread_blocks_finite:
  "list_all (\<lambda>(k, b). finite_block b) bs \<Longrightarrow> map (\<lambda>(k, b). (k, reread_block b)) bs = bs"
  by (induction bs) (auto simp: reread_block_finite)

text \<open>
  Claim C6, as amended. For every store whose tables have distinct keys, whose blocks are
  stored under their own ids and whose link types are not empty, as every store the
  operations produce is (lemma \<open>reachable_wf_store\<close>), \<^verbatim>\<open>importFromJSON\<close> of the
  document that \<^verbatim>\<open>exportToJSON\<close> gives returns true, into whatever store it is called
  on, and leaves the exported table of blocks: the same blocks in the same order, each
  with its id, content, type, links (targets, types and order) and metadata, and with the
  position and size in which every number that is not finite has become \<^verbatim>\<open>null\<close>;
  likewise the settings; \<^verbatim>\<open>blocksImported\<close> is published with the number of blocks.
  When all the numbers of the store are finite, the blocks and the settings rebuilt are
  those exported.
\<close>

theorem export_import_round_trip:
  assumes "wf_store s"
  shows "importFromJSON s0 now' (Parsed (exportToJSON s now)) =
           Returns True
             \<lparr> blocks = map (\<lambda>(k, b). (k, reread_block b)) (blocks s),
               engine_settings = reread_settings (engine_settings s),
               events = events s0 @ [BlocksImported (length (blocks s))] \<rparr> \<and>
         (finite_store s \<longrightarrow>
            importFromJSON s0 now' (Parsed (exportToJSON s now)) =
              Returns True
                \<lparr> blocks = blocks s, engine_settings = engine_settings s,
                  events = events s0 @ [BlocksImported (length (blocks s))] \<rparr>)"
proof -
  have bs: "import_blocks now' (map toJSON (getAllBlocks s)) [] =
              Some (True, map (\<lambda>(k, b). (k, reread_block b)) (blocks s))"
    using import_blocks_toJSON [of "[]" "blocks s" now'] assms
    by (simp add: wf_store_def wf_blocks_def getAllBlocks_def)
  obtain fs where doc: "exportToJSON s now = JObj fs"
    and st: "map_of fs ''settings'' = Some (settings_toJSON (engine_settings s))"
    and bl: "map_of fs ''blocks'' = Some (JArr (map toJSON (getAllBlocks s)))"
    by (simp add: exportToJSON_def)
  have tr: "truthy (settings_toJSON (engine_settings s))"
    by (simp add: settings_toJSON_def)
  have len: "length (getAllBlocks s) = length (blocks s)"
    by (simp add: getAllBlocks_def)
  have c1: "importFromJSON s0 now' (Parsed (exportToJSON s now)) =
           Returns True
             \<lparr> blocks = map (\<lambda>(k, b). (k, reread_block b)) (blocks s),
               engine_settings = reread_settings (engine_settings s),
               events = events s0 @ [BlocksImported (length (blocks s))] \<rparr>"
    unfolding importFromJSON_def doc
    by (simp add: property_def st bl tr assign_settings_toJSON bs len emit_def)
  have c2: "map (\<lambda>(k, b). (k, reread_block b)) (blocks s) = blocks s \<and>
            reread_settings (engine_settings s) = engine_settings s" if "finite_store s"
    using that by (simp add: finite_store_def reread_blocks_finite reread_settings_finite)
  from c1 c2 show ?thesis by simp
qed

theorem export_import_round_trip_witness:
  "wf_store linked_blocks \<and> finite_store linked_blocks \<and>
   importFromJSON new_BlockEngine ''t4'' (Parsed (exportToJSON linked_blocks ''t3'')) =
     Returns True
       \<lparr> blocks = blocks linked_blocks, engine_settings = engine_settings linked_blocks,
         events = events new_BlockEngine @ [BlocksImported (length (blocks linked_blocks))] \<rparr> \<and>
   wf_store nan_store \<and>
   importFromJSON new_BlockEngine ''t4'' (Parsed (exportToJSON nan_store ''t3'')) =
     Returns True
       \<lparr> blocks = map (\<lambda>(k, b). (k, reread_block b)) (blocks nan_store),
         engine_settings = reread_settings (engine_settings nan_store),
         events = events new_BlockEngine @ [BlocksImported (length (blocks nan_store))] \<rparr>"
proof -
  have wf: "wf_store linked_blocks" and fin: "finite_store linked_blocks"
    and wfn: "wf_store nan_store"
    by code_simp+
  from export_import_round_trip [OF wf, of new_BlockEngine "''t4''" "''t3''"] fin
  have a: "importFromJSON new_BlockEngine ''t4'' (Parsed (exportToJSON linked_blocks ''t3'')) =
     Returns True
       \<lparr> blocks = blocks linked_blocks, engine_settings = engine_settings linked_blocks,
         events = events new_BlockEngine @ [BlocksImported (length (blocks linked_blocks))] \<rparr>"
    by blast
  from export_import_round_trip [OF wfn, of new_BlockEngine "''t4''" "''t3''"]
  have b: "importFromJSON new_BlockEngine ''t4'' (Parsed (exportToJSON nan_store ''t3'')) =
     Returns True
       \<lparr> blocks = map (\<lambda>(k, b). (k, reread_block b)) (blocks nan_store),
         engine_settings = reread_settings (engine_settings nan_store),
         events = events new_BlockEngine @ [BlocksImported (length (blocks nan_store))] \<rparr>"
    by blast
  from wf fin a wfn b show ?thesis by blast
qed

text \<open>
  The claim as stated fails on a store that the operations produce. The import of a
  document that sets \<^verbatim>\<open>gridSize\<close> to 0, the creation of a block \<open>a\<close> and a snapped
  move of \<open>a\<close> leave \<open>a\<close> at \<^verbatim>\<open>(NaN, NaN)\<close>; the export of that store writes both
  coordinates as \<^verbatim>\<open>null\<close>, and its import returns true with \<open>a\<close> at
  \<^verbatim>\<open>(null, null)\<close>: the position is not rebuilt.
\<close>

theorem export_import_round_trip_counterexample:
  "importFromJSON new_BlockEngine ''t0'' (Parsed (grid_document 0)) = Returns True (grid_engine 0) \<and>
   reachable nan_store \<and>
   position_of_block nan_store ''a'' = Some \<lparr> pos_x = NaN, pos_y = NaN \<rparr> \<and>
   map (\<lambda>b. property b ''position'') (map toJSON (getAllBlocks nan_store)) =
     [Some (JObj [(''x'', JNull), (''y'', JNull)])] \<and>
   succeeded (importFromJSON new_BlockEngine ''t4'' (Parsed (exportToJSON nan_store ''t3''))) \<and>
   position_of_block nan_reimported ''a'' = Some \<lparr> pos_x = Null, pos_y = Null \<rparr> \<and>
   importFromJSON new_BlockEngine ''t4'' (Parsed (exportToJSON nan_store ''t3'')) =
     Returns True nan_reimported \<and>
   blocks nan_reimported \<noteq> blocks nan_store"
proof -
  have imp: "importFromJSON new_BlockEngine ''t0'' (Parsed (grid_document 0)) =
      Returns True (grid_engine 0)"
    by code_simp
  have "reachable (grid_engine 0)" by (rule reachable.load [OF reachable.init imp])
  then have "reachable (grid_store 0)" unfolding grid_store_def by (rule reachable.create)
  then have r: "reachable nan_store" unfolding nan_store_def by (rule reachable.move)
  have p: "position_of_block nan_store ''a'' = Some \<lparr> pos_x = NaN, pos_y = NaN \<rparr>"
    and d: "map (\<lambda>b. property b ''position'') (map toJSON (getAllBlocks nan_store)) =
     [Some (JObj [(''x'', JNull), (''y'', JNull)])]"
    and s: "succeeded (importFromJSON new_BlockEngine ''t4'' (Parsed (exportToJSON nan_store ''t3'')))"
    and q: "position_of_block nan_reimported ''a'' = Some \<lparr> pos_x = Null, pos_y = Null \<rparr>"
    and e: "importFromJSON new_BlockEngine ''t4'' (Parsed (exportToJSON nan_store ''t3'')) =
     Returns True nan_reimported"
    and n: "blocks nan_reimported \<noteq> blocks nan_store"
    by code_simp+
  from imp r p d s q e n show ?thesis by blast
qed














lemma import_blocks_append:
  "import_blocks now (ds1 @ ds2) acc =
     (case import_blocks now ds1 acc of
        Some (True, bs) \<Rightarrow> import_blocks now ds2 bs
      | r \<Rightarrow> r)"
  by (induction ds1 arbitrary: acc) (auto split: step.splits)

text \<open>
  Claim C8, as amended. \<^verbatim>\<open>importFromJSON\<close> returns false and leaves the store as it was
  when \<^verbatim>\<open>JSON.parse\<close> fails. The store is cleared right after the parse: for every
  document that parses and whose \<^verbatim>\<open>blocks\<close> is absent or not an array, the call returns
  false and leaves the store with no blocks. When \<^verbatim>\<open>blocks\<close> is an array and the import
  raises on one of its records, the call returns false and leaves the store with the
  blocks of the records before that one, neither empty nor as it was.
\<close>

theorem import_failure:
  "importFromJSON s now SyntaxError = Returns False s \<and>
   ((\<forall>ds. property d ''blocks'' \<noteq> Some (JArr ds)) \<and>
    importFromJSON s now (Parsed d) \<noteq> Unrepresentable \<longrightarrow>
      (\<exists>s'. importFromJSON s now (Parsed d) = Returns False s' \<and> blocks s' = [])) \<and>
   (property d ''blocks'' = Some (JArr (ds1 @ r # ds2)) \<and>
    import_blocks now ds1 [] = Some (True, bs) \<and> import_block now r = Throws \<and>
    importFromJSON s now (Parsed d) \<noteq> Unrepresentable \<longrightarrow>
      (\<exists>s'. importFromJSON s now (Parsed d) = Returns False s' \<and> blocks s' = bs))"
proof -
  have c1: "importFromJSON s now SyntaxError = Returns False s"
    by (simp add: importFromJSON_def)
  have c2: "\<exists>s'. importFromJSON s now (Parsed d) = Returns False s' \<and> blocks s' = []"
    if "\<forall>ds. property d ''blocks'' \<noteq> Some (JArr ds)"
      and "importFromJSON s now (Parsed d) \<noteq> Unrepresentable"
    using that
    by (auto simp: importFromJSON_def Let_def split: json.splits option.splits if_splits)
  have c3: "\<exists>s'. importFromJSON s now (Parsed d) = Returns False s' \<and> blocks s' = bs"
    if "property d ''blocks'' = Some (JArr (ds1 @ r # ds2))"
      and "import_blocks now ds1 [] = Some (True, bs)" and "import_block now r = Throws"
      and "importFromJSON s now (Parsed d) \<noteq> Unrepresentable"
  proof -
    have "import_blocks now (ds1 @ r # ds2) [] = Some (False, bs)"
      by (simp add: import_blocks_append that(2,3))
    moreover have "d \<noteq> JNull" using that(1) by (auto simp: property_def)
    ultimately show ?thesis using that(1,4)
      by (auto simp: importFromJSON_def Let_def split: json.splits option.splits if_splits)
  qed
  from c1 c2 c3 show ?thesis by blast
qed

theorem import_failure_witness:
  "importFromJSON two_blocks ''t2'' SyntaxError = Returns False two_blocks \<and>
   (\<exists>s'. importFromJSON two_blocks ''t2'' (Parsed (JObj [])) = Returns False s' \<and>
         blocks s' = []) \<and>
   (\<exists>s'. importFromJSON two_blocks ''t2'' (Parsed partial_document) = Returns False s' \<and>
         blocks s' = [(''x'', x_block)])"
proof -
  have h1: "\<forall>ds. property (JObj []) ''blocks'' \<noteq> Some (JArr ds)"
    by (simp add: property_def)
  have h2: "importFromJSON two_blocks ''t2'' (Parsed (JObj [])) \<noteq> Unrepresentable"
    by code_simp
  have k1: "property partial_document ''blocks'' = Some (JArr ([x_record] @ JNull # []))"
    by (simp add: partial_document_def property_def)
  have k2: "import_blocks ''t2'' [x_record] [] = Some (True, [(''x'', x_block)])"
    by code_simp
  have k3: "import_block ''t2'' JNull = Throws"
    by (simp add: import_block_def)
  have k4: "importFromJSON two_blocks ''t2'' (Parsed partial_document) \<noteq> Unrepresentable"
    by code_simp
  from import_failure [of two_blocks "''t2''" "JObj []"]
  have a: "importFromJSON two_blocks ''t2'' SyntaxError = Returns False two_blocks" by blast
  from import_failure [of two_blocks "''t2''" "JObj []"] h1 h2
  have b: "\<exists>s'. importFromJSON two_blocks ''t2'' (Parsed (JObj [])) = Returns False s' \<and>
         blocks s' = []"
    by blast
  from import_failure [of two_blocks "''t2''" partial_document "[x_record]" JNull "[]"
      "[(''x'', x_block)]"] k1 k2 k3 k4
  have c: "\<exists>s'. importFromJSON two_blocks ''t2'' (Parsed partial_document) = Returns False s' \<and>
         blocks s' = [(''x'', x_block)]"
    by blast
  from a b c show ?thesis by blast
qed

text \<open>
  The claim as stated fails on a list of blocks that is malformed in its second entry: the
  import of \<^verbatim>\<open>{"blocks": [{"id": "x", "metadata": ...}, null]}\<close> into the store of
  blocks \<open>a\<close> and \<open>b\<close> returns false and leaves the store with block \<open>x\<close>.
\<close>

theorem import_failure_counterexample:
  "(case importFromJSON two_blocks ''t2'' (Parsed partial_document) of
      Returns ok s' \<Rightarrow> \<not> ok \<and> map fst (blocks s') = [''x''] \<and> blocks s' \<noteq> []
    | _ \<Rightarrow> False)"
  by code_simp

subsection \<open>Connector geometry\<close>

lemma abs_ratio:
  fixes dx dy w h :: rat
  assumes "0 < w" "0 < h" "\<bar>dy\<bar> / h \<le> \<bar>dx\<bar> / w" "dx \<noteq> 0"
  shows "\<bar>dy * (Math_sign dx * (w / 2) / dx)\<bar> \<le> h / 2"
proof -
  have s: "\<bar>Math_sign dx\<bar> = 1" using assms(4) by (simp add: Math_sign_def)
  have "\<bar>dy * (Math_sign dx * (w / 2) / dx)\<bar> = \<bar>dy\<bar> * (w / 2) / \<bar>dx\<bar>"
    using assms(1) by (simp add: abs_mult s)
  also have "\<dots> \<le> h / 2"
  proof -
    from assms(3) have "\<bar>dy\<bar> * w \<le> \<bar>dx\<bar> * h"
      using assms(1,2) by (simp add: field_simps)
    then have "\<bar>dy\<bar> * (w / 2) \<le> (h / 2) * \<bar>dx\<bar>" by (simp add: field_simps)
    then show ?thesis using assms(4) by (simp add: pos_divide_le_eq)
  qed
  finally show ?thesis .
qed

text \<open>
  Claim C9. For a source rectangle of positive width and height and a target whose center
  is not the source's, with \<open>dx\<close> and \<open>dy\<close> the differences of the centers: when
  \<open>|dx| / width\<close> exceeds \<open>|dy| / height\<close> the anchor is on the source's right edge
  (\<open>dx > 0\<close>) or left edge, at \<open>y = centerY + dy * (sign dx * (width / 2) / dx)\<close>, which
  lies between the top and the bottom of the source; otherwise it is on the bottom edge
  (\<open>dy > 0\<close>) or top edge, at \<open>x = centerX + dx * (sign dy * (height / 2) / dy)\<close>, which
  lies between the left and the right of the source. The result is relative to the
  container's corner and scroll offsets. For \<open>A\<close> at \<open>(0, 0)\<close> and \<open>B\<close> at
  \<open>(300, 0)\<close>, both 100 by 100, in a container at the origin, the anchor is
  \<open>(100, 50)\<close>.
\<close>

theorem connection_point:
  assumes w: "0 < rect_width src" and h: "0 < rect_height src"
    and ne: "centerX tgt \<noteq> centerX src \<or> centerY tgt \<noteq> centerY src"
  shows
    "(\<bar>centerX tgt - centerX src\<bar> / rect_width src > \<bar>centerY tgt - centerY src\<bar> / rect_height src \<longrightarrow>
        (\<exists>y. getConnectionPoint src tgt cont scrollLeft scrollTop =
               Some \<lparr> pos_x = (if centerX tgt - centerX src > 0 then left src + rect_width src
                                else left src) - left cont + scrollLeft,
                      pos_y = y - top cont + scrollTop \<rparr> \<and>
             y = centerY src + (centerY tgt - centerY src) *
                   (Math_sign (centerX tgt - centerX src) * (rect_width src / 2) /
                      (centerX tgt - centerX src)) \<and>
             top src \<le> y \<and> y \<le> top src + rect_height src)) \<and>
     (\<not> \<bar>centerX tgt - centerX src\<bar> / rect_width src > \<bar>centerY tgt - centerY src\<bar> / rect_height src \<longrightarrow>
        (\<exists>x. getConnectionPoint src tgt cont scrollLeft scrollTop =
               Some \<lparr> pos_x = x - left cont + scrollLeft,
                      pos_y = (if centerY tgt - centerY src > 0 then top src + rect_height src
                                else top src) - top cont + scrollTop \<rparr> \<and>
             x = centerX src + (centerX tgt - centerX src) *
                   (Math_sign (centerY tgt - centerY src) * (rect_height src / 2) /
                      (centerY tgt - centerY src)) \<and>
             left src \<le> x \<and> x \<le> left src + rect_width src)) \<and>
     getConnectionPoint rect_A rect_B origin 0 0 = Some \<lparr> pos_x = 100, pos_y = 50 \<rparr>"
proof -
  let ?dx = "centerX tgt - centerX src" and ?dy = "centerY tgt - centerY src"
  let ?w = "rect_width src" and ?h = "rect_height src"
  have horiz: "\<exists>y. getConnectionPoint src tgt cont scrollLeft scrollTop =
               Some \<lparr> pos_x = (if ?dx > 0 then left src + ?w else left src) - left cont + scrollLeft,
                      pos_y = y - top cont + scrollTop \<rparr> \<and>
             y = centerY src + ?dy * (Math_sign ?dx * (?w / 2) / ?dx) \<and>
             top src \<le> y \<and> y \<le> top src + ?h"
    if dom: "\<bar>?dx\<bar> / ?w > \<bar>?dy\<bar> / ?h"
  proof -
    have "0 \<le> \<bar>?dy\<bar> / ?h" using h by simp
    with dom have "0 < \<bar>?dx\<bar> / ?w" by linarith
    then have dx: "?dx \<noteq> 0" by auto
    define e where "e = ?dy * (Math_sign ?dx * (?w / 2) / ?dx)"
    have "\<bar>e\<bar> \<le> ?h / 2"
      unfolding e_def using abs_ratio [OF w h _ dx, of ?dy] dom by simp
    then have "top src \<le> centerY src + e" and "centerY src + e \<le> top src + ?h"
      unfolding centerY_def by linarith+
    then have "top src \<le> centerY src + ?dy * (Math_sign ?dx * (?w / 2) / ?dx)"
      and "centerY src + ?dy * (Math_sign ?dx * (?w / 2) / ?dx) \<le> top src + ?h"
      unfolding e_def by this+
    moreover have "getConnectionPoint src tgt cont scrollLeft scrollTop =
          Some \<lparr> pos_x = (if ?dx > 0 then left src + ?w else left src) - left cont + scrollLeft,
                 pos_y = centerY src + ?dy * (Math_sign ?dx * (?w / 2) / ?dx) - top cont + scrollTop \<rparr>"
      using w h dom dx
      by (simp add: getConnectionPoint_def Let_def centerX_def centerY_def Math_sign_def)
    ultimately show ?thesis by blast
  qed
  have vert: "\<exists>x. getConnectionPoint src tgt cont scrollLeft scrollTop =
               Some \<lparr> pos_x = x - left cont + scrollLeft,
                      pos_y = (if ?dy > 0 then top src + ?h else top src) - top cont + scrollTop \<rparr> \<and>
             x = centerX src + ?dx * (Math_sign ?dy * (?h / 2) / ?dy) \<and>
             left src \<le> x \<and> x \<le> left src + ?w"
    if dom: "\<not> \<bar>?dx\<bar> / ?w > \<bar>?dy\<bar> / ?h"
  proof -
    have dy: "?dy \<noteq> 0"
    proof
      assume z: "?dy = 0"
      with dom have "\<bar>?dx\<bar> / ?w \<le> 0" by simp
      with w have "?dx = 0" by (simp add: divide_le_0_iff)
      with z ne show False by simp
    qed
    define e where "e = ?dx * (Math_sign ?dy * (?h / 2) / ?dy)"
    have "\<bar>e\<bar> \<le> ?w / 2"
      unfolding e_def using abs_ratio [OF h w _ dy, of ?dx] dom by simp
    then have "left src \<le> centerX src + e" and "centerX src + e \<le> left src + ?w"
      unfolding centerX_def by linarith+
    then have "left src \<le> centerX src + ?dx * (Math_sign ?dy * (?h / 2) / ?dy)"
      and "centerX src + ?dx * (Math_sign ?dy * (?h / 2) / ?dy) \<le> left src + ?w"
      unfolding e_def by this+
    moreover have "getConnectionPoint src tgt cont scrollLeft scrollTop =
          Some \<lparr> pos_x = centerX src + ?dx * (Math_sign ?dy * (?h / 2) / ?dy) - left cont + scrollLeft,
                 pos_y = (if ?dy > 0 then top src + ?h else top src) - top cont + scrollTop \<rparr>"
      using w h dom dy
      by (simp add: getConnectionPoint_def Let_def centerX_def centerY_def Math_sign_def)
    ultimately show ?thesis by blast
  qed
  have ex: "getConnectionPoint rect_A rect_B origin 0 0 = Some \<lparr> pos_x = 100, pos_y = 50 \<rparr>"
    by code_simp
  from horiz vert ex show ?thesis by blast
qed

theorem connection_point_witness:
  "0 < rect_width rect_A \<and> 0 < rect_height rect_A \<and>
   centerX rect_B \<noteq> centerX rect_A \<and> centerY rect_C \<noteq> centerY rect_A \<and>
   getConnectionPoint rect_A rect_B origin 0 0 = Some \<lparr> pos_x = 100, pos_y = 50 \<rparr> \<and>
   getConnectionPoint rect_A rect_C origin 0 0 = Some \<lparr> pos_x = 50, pos_y = 100 \<rparr>"
proof -
  have w: "0 < rect_width rect_A" and h: "0 < rect_height rect_A"
    by (simp_all add: rect_A_def)
  have x: "centerX rect_B \<noteq> centerX rect_A"
    by (simp add: centerX_def rect_A_def rect_B_def)
  then have ne: "centerX rect_B \<noteq> centerX rect_A \<or> centerY rect_B \<noteq> centerY rect_A" ..
  have y: "centerY rect_C \<noteq> centerY rect_A"
    by (simp add: centerY_def rect_A_def rect_C_def)
  then have ne': "centerX rect_C \<noteq> centerX rect_A \<or> centerY rect_C \<noteq> centerY rect_A" ..
  have vertical: "\<not> \<bar>centerX rect_C - centerX rect_A\<bar> / rect_width rect_A >
      \<bar>centerY rect_C - centerY rect_A\<bar> / rect_height rect_A"
    by (simp add: centerX_def centerY_def rect_A_def rect_C_def)
  from connection_point [OF w h ne, of origin 0 0]
  have right: "getConnectionPoint rect_A rect_B origin 0 0 = Some \<lparr> pos_x = 100, pos_y = 50 \<rparr>"
    by blast
  from connection_point [OF w h ne', of origin 0 0] vertical
  obtain px where "getConnectionPoint rect_A rect_C origin 0 0 =
      Some \<lparr> pos_x = px - left origin + 0,
             pos_y = (if centerY rect_C - centerY rect_A > 0 then top rect_A + rect_height rect_A
                      else top rect_A) - top origin + 0 \<rparr>"
    and "px = centerX rect_A + (centerX rect_C - centerX rect_A) *
                (Math_sign (centerY rect_C - centerY rect_A) * (rect_height rect_A / 2) /
                   (centerY rect_C - centerY rect_A))"
    by blast
  then have below: "getConnectionPoint rect_A rect_C origin 0 0 = Some \<lparr> pos_x = 50, pos_y = 100 \<rparr>"
    by (simp add: centerX_def centerY_def rect_A_def rect_C_def origin_def Math_sign_def)
  from w h x y right below show ?thesis by blast
qed

end
